theory Spec2Isabelle
  imports Complex_Main "HOL-Library.Multiset"
begin

section \<open>Common data: files, clock readings, effects and the external libraries\<close>

text \<open>
  The browser's \<^verbatim>\<open>File\<close> object: a name, a MIME type (\<^verbatim>\<open>file.type\<close>) and the bytes.
  The bytes are reached through \<^verbatim>\<open>file.arrayBuffer()\<close>, a call of the environment that
  may reject.
\<close>

type_synonym bytes = "nat list"

record File =
  file_name :: string
  file_type :: string
  file_data :: bytes

text \<open>
  \<^verbatim>\<open>Date.now().toString()\<close>: the clock is an integer number of milliseconds, printed
  in decimal.
\<close>

definition digit_char :: "nat \<Rightarrow> char" where
  "digit_char d = ''0123456789'' ! (d mod 10)"

function digits :: "nat \<Rightarrow> string" where
  "digits n = (if n < 10 then [digit_char n] else digits (n div 10) @ [digit_char (n mod 10)])"
  by pat_completeness auto
termination
  by (relation "measure (\<lambda>n. n)") auto

declare digits.simps [simp del]

definition toString :: "int \<Rightarrow> string" where
  "toString n = (if n < 0 then CHR ''-'' # digits (nat (- n)) else digits (nat n))"

text \<open>
  What a handler does to the world besides updating its state: \<^verbatim>\<open>alert(message)\<close> and
  the download started by clicking a temporary link (\<^verbatim>\<open>a.download = name; a.click()\<close>)
  on a blob of the given bytes. Console output is not modelled.
\<close>

datatype effect = Alert string | Download string bytes

subsection \<open>JavaScript numbers\<close>

text \<open>
  A JavaScript \<^verbatim>\<open>number\<close> is a double: a finite value, an infinity or NaN. The model
  keeps the range of a double and the special values, and leaves out the rounding of
  the finite values inside the range and the sign of zero. A result of an operation
  whose magnitude reaches \<^verbatim>\<open>2^1024 - 2^970\<close> (where rounding to nearest leaves the
  doubles) is an infinity; one whose magnitude is at most \<^verbatim>\<open>2^-1075\<close> (half the
  smallest double) is zero; any other result stands for itself. The special values
  follow IEEE 754 as JavaScript does: division by zero gives an infinity or NaN, every
  comparison with NaN is false, and \<^verbatim>\<open>Math.max\<close> and \<^verbatim>\<open>Math.min\<close> return NaN when an
  argument is NaN.
\<close>

datatype jsnum = Num real | PosInf | NegInf | NaN

text \<open>An infinity of the sign of a finite value; NaN for zero (zero times infinity).\<close>

definition signed_inf :: "real \<Rightarrow> jsnum" where
  "signed_inf a = (if 0 < a then PosInf else if a < 0 then NegInf else NaN)"

definition to_double :: "real \<Rightarrow> jsnum" where
  "to_double r =
     (if 2 ^ 1024 - 2 ^ 970 \<le> \<bar>r\<bar> then signed_inf r
      else if \<bar>r\<bar> \<le> 1 / 2 ^ 1075 then Num 0
      else Num r)"

fun js_neg :: "jsnum \<Rightarrow> jsnum" where
  "js_neg (Num a) = Num (- a)"
| "js_neg PosInf = NegInf"
| "js_neg NegInf = PosInf"
| "js_neg NaN = NaN"

fun js_add :: "jsnum \<Rightarrow> jsnum \<Rightarrow> jsnum" where
  "js_add (Num a) (Num b) = to_double (a + b)"
| "js_add (Num a) PosInf = PosInf"
| "js_add (Num a) NegInf = NegInf"
| "js_add PosInf (Num b) = PosInf"
| "js_add PosInf PosInf = PosInf"
| "js_add PosInf NegInf = NaN"
| "js_add NegInf (Num b) = NegInf"
| "js_add NegInf PosInf = NaN"
| "js_add NegInf NegInf = NegInf"
| "js_add NaN b = NaN"
| "js_add a NaN = NaN"

definition js_sub :: "jsnum \<Rightarrow> jsnum \<Rightarrow> jsnum" where
  "js_sub a b = js_add a (js_neg b)"

fun js_mul :: "jsnum \<Rightarrow> jsnum \<Rightarrow> jsnum" where
  "js_mul (Num a) (Num b) = to_double (a * b)"
| "js_mul (Num a) PosInf = signed_inf a"
| "js_mul (Num a) NegInf = signed_inf (- a)"
| "js_mul PosInf (Num b) = signed_inf b"
| "js_mul PosInf PosInf = PosInf"
| "js_mul PosInf NegInf = NegInf"
| "js_mul NegInf (Num b) = signed_inf (- b)"
| "js_mul NegInf PosInf = NegInf"
| "js_mul NegInf NegInf = PosInf"
| "js_mul NaN b = NaN"
| "js_mul a NaN = NaN"

fun js_div :: "jsnum \<Rightarrow> jsnum \<Rightarrow> jsnum" where
  "js_div (Num a) (Num b) = (if b = 0 then signed_inf a else to_double (a / b))"
| "js_div (Num a) PosInf = Num 0"
| "js_div (Num a) NegInf = Num 0"
| "js_div PosInf (Num b) = (if b < 0 then NegInf else PosInf)"
| "js_div NegInf (Num b) = (if b < 0 then PosInf else NegInf)"
| "js_div PosInf PosInf = NaN"
| "js_div PosInf NegInf = NaN"
| "js_div NegInf PosInf = NaN"
| "js_div NegInf NegInf = NaN"
| "js_div NaN b = NaN"
| "js_div a NaN = NaN"

fun js_lt :: "jsnum \<Rightarrow> jsnum \<Rightarrow> bool" where
  "js_lt (Num a) (Num b) = (a < b)"
| "js_lt (Num a) PosInf = True"
| "js_lt NegInf (Num b) = True"
| "js_lt NegInf PosInf = True"
| "js_lt a b = False"

definition js_le :: "jsnum \<Rightarrow> jsnum \<Rightarrow> bool" where
  "js_le a b = (js_lt a b \<or> (a = b \<and> a \<noteq> NaN))"

definition js_gt :: "jsnum \<Rightarrow> jsnum \<Rightarrow> bool" where
  "js_gt a b = js_lt b a"

definition js_ge :: "jsnum \<Rightarrow> jsnum \<Rightarrow> bool" where
  "js_ge a b = js_le b a"

definition Math_max :: "jsnum \<Rightarrow> jsnum \<Rightarrow> jsnum" where
  "Math_max a b = (if a = NaN \<or> b = NaN then NaN else if js_lt a b then b else a)"

definition Math_min :: "jsnum \<Rightarrow> jsnum \<Rightarrow> jsnum" where
  "Math_min a b = (if a = NaN \<or> b = NaN then NaN else if js_lt b a then b else a)"

fun Math_abs :: "jsnum \<Rightarrow> jsnum" where
  "Math_abs (Num a) = Num \<bar>a\<bar>"
| "Math_abs PosInf = PosInf"
| "Math_abs NegInf = PosInf"
| "Math_abs NaN = NaN"

text \<open>
  Truthiness, for \<^verbatim>\<open>a || b\<close>: a number is falsy when it is zero or NaN, and
  \<^verbatim>\<open>undefined\<close> (here \<open>None\<close>) is falsy.
\<close>

definition js_truthy :: "jsnum \<Rightarrow> bool" where
  "js_truthy a = (a \<noteq> NaN \<and> a \<noteq> Num 0)"

definition or_else :: "jsnum option \<Rightarrow> jsnum \<Rightarrow> jsnum" where
  "or_else a d = (case a of None \<Rightarrow> d | Some v \<Rightarrow> if js_truthy v then v else d)"

subsection \<open>The external libraries\<close>

text \<open>
  The external libraries and the File API are parameters: every call that can throw or
  reject returns a sum, \<open>Inl\<close> the failure. A pdf-lib document is the list of its
  pages: \<^verbatim>\<open>PDFDocument.create()\<close> is the empty list, \<^verbatim>\<open>getPageIndices\<close> lists the
  indices, \<^verbatim>\<open>copyPages\<close> gives the pages at the indices and \<^verbatim>\<open>addPage\<close> appends one
  page. The pages are opaque (the type variable). pdf.js documents and pages are
  handles.
\<close>

datatype lib_error = LibError string

type_synonym handle = nat

record text_item =
  item_str :: "string option"
  item_transform :: "jsnum list option"
  item_width :: "jsnum option"

record viewport =
  viewport_width :: jsnum
  viewport_height :: jsnum

datatype color = rgb jsnum jsnum jsnum

record rectangle_options =
  rect_x :: jsnum
  rect_y :: jsnum
  rect_width :: jsnum
  rect_height :: jsnum
  rect_color :: color

record text_options =
  text_x :: jsnum
  text_y :: jsnum
  text_size :: jsnum
  text_color :: color

record 'p env =
  arrayBuffer :: "File \<Rightarrow> lib_error + bytes"
  PDFDocument_load :: "bytes \<Rightarrow> lib_error + 'p list"
  PDFDocument_save :: "'p list \<Rightarrow> lib_error + bytes"
  getHeight :: "'p \<Rightarrow> jsnum"
  drawRectangle :: "'p \<Rightarrow> rectangle_options \<Rightarrow> lib_error + 'p"
  drawText :: "'p \<Rightarrow> string \<Rightarrow> text_options \<Rightarrow> lib_error + 'p"
  getDocument :: "bytes \<Rightarrow> lib_error + handle"
  getPage :: "handle \<Rightarrow> nat \<Rightarrow> lib_error + handle"
  getTextContent :: "handle \<Rightarrow> lib_error + text_item list"
  getViewport :: "handle \<Rightarrow> lib_error + viewport"

definition PDFDocument_create :: "'p list" where
  "PDFDocument_create = []"

definition getPageIndices :: "'p list \<Rightarrow> nat list" where
  "getPageIndices pdf = [0..<length pdf]"

definition copyPages :: "'p list \<Rightarrow> nat list \<Rightarrow> 'p list" where
  "copyPages pdf indices = map (\<lambda>i. pdf ! i) indices"

definition addPage :: "'p list \<Rightarrow> 'p \<Rightarrow> 'p list" where
  "addPage doc page = doc @ [page]"

section \<open>The shell (App)\<close>

datatype mode = View | Edit | Merge

record app_state =
  app_pdfFile :: "File option"
  app_mode :: mode
  app_zoom :: jsnum

definition app_init :: app_state where
  "app_init = \<lparr>app_pdfFile = None, app_mode = View, app_zoom = Num 1\<rparr>"

text \<open>
  \<^verbatim>\<open>event.target.files?.[0]\<close>: the first file of the picker's list, \<^verbatim>\<open>undefined\<close> when
  the list is null or empty.
\<close>

definition first_file :: "File list option \<Rightarrow> File option" where
  "first_file files = (case files of None \<Rightarrow> None | Some [] \<Rightarrow> None | Some (f # _) \<Rightarrow> Some f)"

definition handleFileUpload :: "File list option \<Rightarrow> app_state \<Rightarrow> app_state" where
  "handleFileUpload files s =
     (case first_file files of
        None \<Rightarrow> s
      | Some file \<Rightarrow>
          if file_type file = ''application/pdf''
          then s\<lparr>app_pdfFile := Some file, app_mode := View\<rparr>
          else s)"

definition zoomIn :: "app_state \<Rightarrow> app_state" where
  "zoomIn s = s\<lparr>app_zoom := js_mul (app_zoom s) (Num 1.2)\<rparr>"

definition zoomOut :: "app_state \<Rightarrow> app_state" where
  "zoomOut s = s\<lparr>app_zoom := js_div (app_zoom s) (Num 1.2)\<rparr>"

definition setMode :: "mode \<Rightarrow> app_state \<Rightarrow> app_state" where
  "setMode m s = s\<lparr>app_mode := m\<rparr>"

text \<open>
  The \<^verbatim>\<open><input type="file">\<close> elements a component renders, with their \<^verbatim>\<open>accept\<close> and
  \<^verbatim>\<open>multiple\<close> attributes. The shell renders one; the merger, shown in merge mode once a
  file is loaded, renders one; the viewer and the editor render none.
\<close>

record file_input =
  accept :: string
  multiple :: bool

definition App_file_input :: file_input where
  "App_file_input = \<lparr>accept = ''.pdf'', multiple = False\<rparr>"

definition PDFMerger_file_input :: file_input where
  "PDFMerger_file_input = \<lparr>accept = ''.pdf'', multiple = True\<rparr>"

definition rendered_file_inputs :: "app_state \<Rightarrow> file_input list" where
  "rendered_file_inputs s =
     App_file_input #
     (case app_pdfFile s of
        None \<Rightarrow> []
      | Some _ \<Rightarrow> (case app_mode s of View \<Rightarrow> [] | Edit \<Rightarrow> [] | Merge \<Rightarrow> [PDFMerger_file_input]))"

section \<open>The merger (PDFMerger)\<close>

record PDFFile =
  pf_id :: string
  pf_file :: File
  pf_name :: string
  pf_pages :: nat

record merger_state =
  pdfFiles :: "PDFFile list"
  merging :: bool

definition merger_init :: "File \<Rightarrow> merger_state" where
  "merger_init primaryFile =
     \<lparr>pdfFiles = [\<lparr>pf_id = ''1'', pf_file = primaryFile, pf_name = file_name primaryFile, pf_pages = 0\<rparr>],
      merging = False\<rparr>"

text \<open>
  \<^verbatim>\<open>handleAddFiles\<close>: each picked file gets the id
  \<^verbatim>\<open>Date.now().toString() + Math.random().toString()\<close>. The two readings taken for the
  file at position \<open>k\<close> of the picker's list are \<open>readings k\<close>: the clock, and the
  printed random number. A null list changes nothing.
\<close>

definition new_PDFFile :: "(nat \<Rightarrow> int \<times> string) \<Rightarrow> nat \<times> File \<Rightarrow> PDFFile" where
  "new_PDFFile readings kf =
     \<lparr>pf_id = toString (fst (readings (fst kf))) @ snd (readings (fst kf)),
      pf_file = snd kf, pf_name = file_name (snd kf), pf_pages = 0\<rparr>"

definition handleAddFiles :: "File list option \<Rightarrow> (nat \<Rightarrow> int \<times> string) \<Rightarrow> merger_state \<Rightarrow> merger_state" where
  "handleAddFiles files readings s =
     (case files of
        None \<Rightarrow> s
      | Some fs \<Rightarrow> s\<lparr>pdfFiles := pdfFiles s @ map (new_PDFFile readings) (enumerate 0 fs)\<rparr>)"

definition removeFile :: "string \<Rightarrow> merger_state \<Rightarrow> merger_state" where
  "removeFile id' s =
     (if length (pdfFiles s) > 1
      then s\<lparr>pdfFiles := filter (\<lambda>file. pf_id file \<noteq> id') (pdfFiles s)\<rparr>
      else s)"

text \<open>
  \<^verbatim>\<open>moveFileUp\<close> swaps rows \<open>index - 1\<close> and \<open>index\<close> of a copy of the list. Its only
  guard is \<open>index > 0\<close>: at an index past the last row the JavaScript would store
  \<^verbatim>\<open>undefined\<close> in the array, which is no list of files any more; that outcome is
  \<open>None\<close>. The row buttons pass the index of a rendered row only.
  \<^verbatim>\<open>moveFileDown\<close> is guarded by \<open>index < length - 1\<close> and never leaves the list.
\<close>

definition moveFileUp :: "nat \<Rightarrow> merger_state \<Rightarrow> merger_state option" where
  "moveFileUp index s =
     (if index > 0
      then (if index < length (pdfFiles s)
            then Some (s\<lparr>pdfFiles := (pdfFiles s)[index - 1 := pdfFiles s ! index,
                                                   index := pdfFiles s ! (index - 1)]\<rparr>)
            else None)
      else Some s)"

definition moveFileDown :: "nat \<Rightarrow> merger_state \<Rightarrow> merger_state" where
  "moveFileDown index s =
     (if index < length (pdfFiles s) - 1
      then s\<lparr>pdfFiles := (pdfFiles s)[index := pdfFiles s ! (index + 1),
                                       index + 1 := pdfFiles s ! index]\<rparr>
      else s)"

text \<open>
  \<^verbatim>\<open>mergePDFs\<close>. The loop reads and loads each listed file in order and appends its
  pages to the new document; a failing call leaves the loop at once (the exception).
\<close>

fun merge_loop :: "'p env \<Rightarrow> 'p list \<Rightarrow> PDFFile list \<Rightarrow> lib_error + 'p list" where
  "merge_loop env mergedPdf [] = Inr mergedPdf"
| "merge_loop env mergedPdf (entry # rest) =
     (case arrayBuffer env (pf_file entry) of
        Inl e \<Rightarrow> Inl e
      | Inr buffer \<Rightarrow>
          (case PDFDocument_load env buffer of
             Inl e \<Rightarrow> Inl e
           | Inr pdf \<Rightarrow>
               merge_loop env (foldl addPage mergedPdf (copyPages pdf (getPageIndices pdf))) rest))"

text \<open>The body of the \<^verbatim>\<open>try\<close> block, after \<^verbatim>\<open>setMerging(true)\<close>; \<open>now\<close> is the clock read for the file name.\<close>

definition mergePDFs_try :: "'p env \<Rightarrow> int \<Rightarrow> merger_state \<Rightarrow> lib_error + effect list" where
  "mergePDFs_try env now s =
     (case merge_loop env PDFDocument_create (pdfFiles s) of
        Inl e \<Rightarrow> Inl e
      | Inr mergedPdf \<Rightarrow>
          (case PDFDocument_save env mergedPdf of
             Inl e \<Rightarrow> Inl e
           | Inr pdfBytes \<Rightarrow> Inr [Download (''merged_'' @ toString now @ ''.pdf'') pdfBytes]))"

text \<open>
  The whole handler: \<^verbatim>\<open>try\<close>, \<^verbatim>\<open>catch\<close> (the alert) and \<^verbatim>\<open>finally\<close>
  (\<^verbatim>\<open>setMerging(false)\<close>). The result is what the returned promise settles to: \<open>Inr\<close> when
  it is fulfilled, \<open>Inl\<close> when it is rejected.
\<close>

definition mergePDFs :: "'p env \<Rightarrow> int \<Rightarrow> merger_state \<Rightarrow> lib_error + merger_state \<times> effect list" where
  "mergePDFs env now s =
     (case mergePDFs_try env now (s\<lparr>merging := True\<rparr>) of
        Inr effects \<Rightarrow> Inr (s\<lparr>merging := False\<rparr>, effects)
      | Inl error \<Rightarrow> Inr (s\<lparr>merging := False\<rparr>, [Alert ''Failed to merge PDFs. Please try again.'']))"

text \<open>The \<^verbatim>\<open>disabled\<close> attributes of the rendered buttons.\<close>

definition merge_button_disabled :: "merger_state \<Rightarrow> bool" where
  "merge_button_disabled s = (length (pdfFiles s) < 2 \<or> merging s)"

definition up_button_disabled :: "nat \<Rightarrow> bool" where
  "up_button_disabled index = (index = 0)"

definition down_button_disabled :: "merger_state \<Rightarrow> nat \<Rightarrow> bool" where
  "down_button_disabled s index = (int index = int (length (pdfFiles s)) - 1)"

definition remove_button_disabled :: "merger_state \<Rightarrow> bool" where
  "remove_button_disabled s = (length (pdfFiles s) \<le> 1)"

text \<open>
  The merger's events. A row button exists for the rendered rows only and a disabled
  button does not fire; \<^verbatim>\<open>mergePDFs\<close> has the merge button as its only caller. The rows
  are keyed by the ids, so the step describes the rendered component while the ids of
  the list are pairwise distinct.
\<close>

datatype merger_event =
    AddFilesChange "File list option" "nat \<Rightarrow> int \<times> string"
  | MoveUpClick nat
  | MoveDownClick nat
  | RemoveClick nat
  | MergeClick int

definition merger_step :: "'p env \<Rightarrow> merger_event \<Rightarrow> merger_state \<Rightarrow> merger_state \<times> effect list" where
  "merger_step env ev s =
     (case ev of
        AddFilesChange files readings \<Rightarrow> (handleAddFiles files readings s, [])
      | MoveUpClick index \<Rightarrow>
          if index < length (pdfFiles s) \<and> \<not> up_button_disabled index
          then (case moveFileUp index s of Some s' \<Rightarrow> (s', []) | None \<Rightarrow> (s, []))
          else (s, [])
      | MoveDownClick index \<Rightarrow>
          if index < length (pdfFiles s) \<and> \<not> down_button_disabled s index
          then (moveFileDown index s, [])
          else (s, [])
      | RemoveClick index \<Rightarrow>
          if index < length (pdfFiles s) \<and> \<not> remove_button_disabled s
          then (removeFile (pf_id (pdfFiles s ! index)) s, [])
          else (s, [])
      | MergeClick now \<Rightarrow>
          if merge_button_disabled s then (s, [])
          else (case mergePDFs env now s of Inr r \<Rightarrow> r | Inl e \<Rightarrow> (s, [])))"

fun merger_run :: "'p env \<Rightarrow> merger_event list \<Rightarrow> merger_state \<Rightarrow> merger_state" where
  "merger_run env [] s = s"
| "merger_run env (ev # evs) s = merger_run env evs (fst (merger_step env ev s))"

section \<open>The editor (PDFEditor)\<close>

datatype annotation_type = New | Existing

record TextAnnotation =
  ann_id :: string
  ann_x :: jsnum
  ann_y :: jsnum
  ann_text :: string
  ann_fontSize :: jsnum
  isEditing :: bool
  ann_type :: annotation_type
  originalText :: "string option"

record ExtractedText =
  ext_id :: string
  ext_text :: string
  ext_x :: jsnum
  ext_y :: jsnum
  ext_width :: jsnum
  ext_height :: jsnum
  ext_fontSize :: jsnum
  pageIndex :: nat

datatype edit_mode = Add | Replace

text \<open>
  The component's state. \<^verbatim>\<open>fileUrl\<close>, the sidebar and the fullscreen flag only affect
  the layout and are left out. A \<^verbatim>\<open>string | null\<close> is a \<open>string option\<close>.
\<close>

record editor_state =
  textAnnotations :: "TextAnnotation list"
  extractedTexts :: "ExtractedText list"
  selectedAnnotation :: "string option"
  dragging :: "string option"
  dragOffset :: "jsnum \<times> jsnum"
  editMode :: edit_mode
  loading :: bool
  pdfScale :: jsnum

definition editor_init :: editor_state where
  "editor_init =
     \<lparr>textAnnotations = [], extractedTexts = [], selectedAnnotation = None, dragging = None,
      dragOffset = (Num 0, Num 0), editMode = Add, loading = False, pdfScale = Num 0.8\<rparr>"

text \<open>A \<^verbatim>\<open>string | null\<close> is truthy when it is a non-empty string.\<close>

definition str_truthy :: "string option \<Rightarrow> bool" where
  "str_truthy v = (case v of None \<Rightarrow> False | Some str \<Rightarrow> str \<noteq> [])"

text \<open>
  \<^verbatim>\<open>Partial<TextAnnotation>\<close>: each field present or absent. \<^verbatim>\<open>{ ...ann, ...updates }\<close>
  takes every present field from the updates.
\<close>

record annotation_updates =
  upd_id :: "string option"
  upd_x :: "jsnum option"
  upd_y :: "jsnum option"
  upd_text :: "string option"
  upd_fontSize :: "jsnum option"
  upd_isEditing :: "bool option"
  upd_type :: "annotation_type option"
  upd_originalText :: "string option option"

definition no_updates :: annotation_updates where
  "no_updates =
     \<lparr>upd_id = None, upd_x = None, upd_y = None, upd_text = None, upd_fontSize = None,
      upd_isEditing = None, upd_type = None, upd_originalText = None\<rparr>"

definition or_keep :: "'a option \<Rightarrow> 'a \<Rightarrow> 'a" where
  "or_keep u v = (case u of None \<Rightarrow> v | Some w \<Rightarrow> w)"

definition spread :: "TextAnnotation \<Rightarrow> annotation_updates \<Rightarrow> TextAnnotation" where
  "spread ann updates =
     \<lparr>ann_id = or_keep (upd_id updates) (ann_id ann),
      ann_x = or_keep (upd_x updates) (ann_x ann),
      ann_y = or_keep (upd_y updates) (ann_y ann),
      ann_text = or_keep (upd_text updates) (ann_text ann),
      ann_fontSize = or_keep (upd_fontSize updates) (ann_fontSize ann),
      isEditing = or_keep (upd_isEditing updates) (isEditing ann),
      ann_type = or_keep (upd_type updates) (ann_type ann),
      originalText = or_keep (upd_originalText updates) (originalText ann)\<rparr>"

definition updateAnnotation :: "string \<Rightarrow> annotation_updates \<Rightarrow> editor_state \<Rightarrow> editor_state" where
  "updateAnnotation id' updates s =
     s\<lparr>textAnnotations :=
         map (\<lambda>ann. if ann_id ann = id' then spread ann updates else ann) (textAnnotations s)\<rparr>"

definition deleteAnnotation :: "string \<Rightarrow> editor_state \<Rightarrow> editor_state" where
  "deleteAnnotation id' s =
     s\<lparr>textAnnotations := filter (\<lambda>ann. ann_id ann \<noteq> id') (textAnnotations s),
       selectedAnnotation := None\<rparr>"

text \<open>
  A mouse event: the pointer, and the bounding rectangle of the element the handler
  is attached to (\<^verbatim>\<open>event.currentTarget.getBoundingClientRect()\<close>).
\<close>

record mouse_event =
  clientX :: jsnum
  clientY :: jsnum
  bounds_left :: jsnum
  bounds_top :: jsnum
  bounds_width :: jsnum
  bounds_height :: jsnum

text \<open>
  The click in page coordinates, as \<^verbatim>\<open>handlePDFClick\<close> computes \<open>x\<close> and \<open>y\<close> from the
  800 by 1000 frame, the zoom (a prop of the component) and the scale.
\<close>

definition click_coords :: "jsnum \<Rightarrow> mouse_event \<Rightarrow> editor_state \<Rightarrow> jsnum \<times> jsnum" where
  "click_coords zoom event s =
     (let clickX = js_sub (clientX event) (bounds_left event);
          clickY = js_sub (clientY event) (bounds_top event);
          pdfWidth = js_mul (js_mul (Num 800) zoom) (pdfScale s);
          pdfHeight = js_mul (js_mul (Num 1000) zoom) (pdfScale s);
          containerWidth = bounds_width event;
          containerHeight = bounds_height event;
          pdfOffsetX = js_div (js_sub containerWidth pdfWidth) (Num 2);
          pdfOffsetY = Math_max (Num 80) (js_div (js_sub containerHeight pdfHeight) (Num 2));
          x = js_div (js_sub clickX pdfOffsetX) (js_mul zoom (pdfScale s));
          y = js_div (js_sub clickY pdfOffsetY) (js_mul zoom (pdfScale s))
      in (x, y))"

text \<open>The test that makes \<^verbatim>\<open>handlePDFClick\<close> ignore a click outside the page.\<close>

definition outside_pdf_area :: "jsnum \<times> jsnum \<Rightarrow> bool" where
  "outside_pdf_area xy =
     (js_lt (fst xy) (Num 0) \<or> js_gt (fst xy) (Num 800) \<or>
      js_lt (snd xy) (Num 0) \<or> js_gt (snd xy) (Num 1000))"

text \<open>The predicate of \<^verbatim>\<open>extractedTexts.find\<close> in replace mode, with its margin of 25.\<close>

definition isInBounds :: "jsnum \<times> jsnum \<Rightarrow> ExtractedText \<Rightarrow> bool" where
  "isInBounds xy t =
     (let margin = Num 25 in
      js_ge (fst xy) (js_sub (ext_x t) margin) \<and>
      js_le (fst xy) (js_add (js_add (ext_x t) (ext_width t)) margin) \<and>
      js_ge (snd xy) (js_sub (ext_y t) margin) \<and>
      js_le (snd xy) (js_add (js_add (ext_y t) (ext_height t)) margin))"

definition handlePDFClick :: "jsnum \<Rightarrow> mouse_event \<Rightarrow> int \<Rightarrow> editor_state \<Rightarrow> editor_state" where
  "handlePDFClick zoom event now s =
     (if str_truthy (dragging s) then s
      else
        let xy = click_coords zoom event s in
        if outside_pdf_area xy then s
        else
          (case editMode s of
             Add \<Rightarrow>
               (let newAnnotation =
                      \<lparr>ann_id = toString now, ann_x = fst xy, ann_y = snd xy, ann_text = ''New text'',
                       ann_fontSize = Num 14, isEditing = True, ann_type = New, originalText = None\<rparr>
                in s\<lparr>textAnnotations := textAnnotations s @ [newAnnotation],
                     selectedAnnotation := Some (ann_id newAnnotation)\<rparr>)
           | Replace \<Rightarrow>
               (case find (isInBounds xy) (extractedTexts s) of
                  None \<Rightarrow> s
                | Some clickedText \<Rightarrow>
                    (case find (\<lambda>ann. ann_id ann = ext_id clickedText) (textAnnotations s) of
                       None \<Rightarrow>
                         (let newAnnotation =
                                \<lparr>ann_id = ext_id clickedText, ann_x = ext_x clickedText,
                                 ann_y = ext_y clickedText, ann_text = ext_text clickedText,
                                 ann_fontSize = ext_fontSize clickedText, isEditing = True,
                                 ann_type = Existing, originalText = Some (ext_text clickedText)\<rparr>
                          in s\<lparr>textAnnotations := textAnnotations s @ [newAnnotation],
                               selectedAnnotation := Some (ann_id newAnnotation)\<rparr>)
                     | Some existingAnnotation \<Rightarrow>
                         (updateAnnotation (ann_id existingAnnotation)
                            (no_updates\<lparr>upd_isEditing := Some True\<rparr>) s)
                         \<lparr>selectedAnnotation := Some (ann_id existingAnnotation)\<rparr>))))"

definition handleMouseDown :: "jsnum \<Rightarrow> mouse_event \<Rightarrow> string \<Rightarrow> editor_state \<Rightarrow> editor_state" where
  "handleMouseDown zoom event annotationId s =
     (let s1 = s\<lparr>dragging := Some annotationId, selectedAnnotation := Some annotationId\<rparr> in
      case find (\<lambda>ann. ann_id ann = annotationId) (textAnnotations s) of
        None \<Rightarrow> s1
      | Some annotation \<Rightarrow>
          s1\<lparr>dragOffset :=
               (js_sub (js_sub (clientX event) (bounds_left event))
                       (js_mul (js_mul (ann_x annotation) zoom) (pdfScale s)),
                js_sub (js_sub (clientY event) (bounds_top event))
                       (js_mul (js_mul (ann_y annotation) zoom) (pdfScale s)))\<rparr>)"

text \<open>The unclamped page coordinates of a drag, as \<^verbatim>\<open>handleMouseMove\<close> computes them.\<close>

definition drag_coords :: "jsnum \<Rightarrow> mouse_event \<Rightarrow> editor_state \<Rightarrow> jsnum \<times> jsnum" where
  "drag_coords zoom event s =
     (let containerWidth = bounds_width event;
          containerHeight = bounds_height event;
          pdfWidth = js_mul (js_mul (Num 800) zoom) (pdfScale s);
          pdfHeight = js_mul (js_mul (Num 1000) zoom) (pdfScale s);
          pdfOffsetX = js_div (js_sub containerWidth pdfWidth) (Num 2);
          pdfOffsetY = Math_max (Num 80) (js_div (js_sub containerHeight pdfHeight) (Num 2));
          relativeX = js_sub (js_sub (js_sub (clientX event) (bounds_left event)) pdfOffsetX)
                             (fst (dragOffset s));
          relativeY = js_sub (js_sub (js_sub (clientY event) (bounds_top event)) pdfOffsetY)
                             (snd (dragOffset s));
          x = js_div relativeX (js_mul zoom (pdfScale s));
          y = js_div relativeY (js_mul zoom (pdfScale s))
      in (x, y))"

definition handleMouseMove :: "jsnum \<Rightarrow> mouse_event \<Rightarrow> editor_state \<Rightarrow> editor_state" where
  "handleMouseMove zoom event s =
     (case dragging s of
        None \<Rightarrow> s
      | Some dragged \<Rightarrow>
          if dragged = [] then s
          else
            let xy = drag_coords zoom event s;
                clampedX = Math_max (Num 0) (Math_min (Num 800) (fst xy));
                clampedY = Math_max (Num 0) (Math_min (Num 1000) (snd xy))
            in updateAnnotation dragged
                 (no_updates\<lparr>upd_x := Some clampedX, upd_y := Some clampedY\<rparr>) s)"

definition handleMouseUp :: "editor_state \<Rightarrow> editor_state" where
  "handleMouseUp s = s\<lparr>dragging := None, dragOffset := (Num 0, Num 0)\<rparr>"

subsection \<open>Text extraction\<close>

text \<open>
  \<^verbatim>\<open>String(item.str).trim()\<close> removes white space and line terminators at both ends;
  among the 8-bit characters these are tab, line feed, vertical tab, form feed,
  carriage return, space and the no-break space (160).
\<close>

definition is_whitespace :: "char \<Rightarrow> bool" where
  "is_whitespace c = ((of_char c :: nat) \<in> {9, 10, 11, 12, 13, 32, 160})"

definition trim :: "string \<Rightarrow> string" where
  "trim str = rev (dropWhile is_whitespace (rev (dropWhile is_whitespace str)))"

text \<open>Reading an array of numbers at an index: \<^verbatim>\<open>undefined\<close> past the end.\<close>

definition js_index :: "jsnum list \<Rightarrow> nat \<Rightarrow> jsnum option" where
  "js_index xs i = (if i < length xs then Some (xs ! i) else None)"

text \<open>\<^verbatim>\<open>Math.abs\<close> of a value that may be \<^verbatim>\<open>undefined\<close>, which converts to NaN.\<close>

definition Math_abs_of :: "jsnum option \<Rightarrow> jsnum" where
  "Math_abs_of v = (case v of None \<Rightarrow> NaN | Some a \<Rightarrow> Math_abs a)"

text \<open>
  One text item of the first page, with its index in \<^verbatim>\<open>textContent.items\<close>: skipped
  when it has no string or only white space.
\<close>

definition extract_item :: "viewport \<Rightarrow> nat \<times> text_item \<Rightarrow> ExtractedText option" where
  "extract_item vp indexed =
     (let index = fst indexed; item = snd indexed in
      case item_str item of
        None \<Rightarrow> None
      | Some str \<Rightarrow>
          (let t = trim str in
           if length t > 0 then
             (let transform = (case item_transform item of
                                 None \<Rightarrow> [Num 12, Num 0, Num 0, Num 12, Num 0, Num 0]
                               | Some tr \<Rightarrow> tr);
                  x = or_else (js_index transform 4) (Num 0);
                  y = or_else (js_index transform 5) (Num 0);
                  scaleX = or_else (Some (Math_abs_of (js_index transform 0))) (Num 12);
                  scaleY = or_else (Some (Math_abs_of (js_index transform 3))) (Num 12);
                  calculatedWidth =
                    or_else (item_width item)
                      (Math_max (js_mul (js_mul (Num (real (length t))) scaleX) (Num 0.7)) (Num 30));
                  calculatedHeight = Math_max (Math_max scaleY scaleX) (Num 12);
                  adjustedY = Math_max (Num 0) (js_sub (js_sub (viewport_height vp) y) calculatedHeight)
              in Some \<lparr>ext_id = ''extracted_1_'' @ toString (int index), ext_text = t,
                       ext_x = Math_max (Num 0) x, ext_y = adjustedY, ext_width = calculatedWidth,
                       ext_height = calculatedHeight, ext_fontSize = Math_max scaleX (Num 10),
                       pageIndex = 0\<rparr>)
           else None))"

definition demo_text :: "string \<Rightarrow> string \<Rightarrow> real \<Rightarrow> real \<Rightarrow> real \<Rightarrow> real \<Rightarrow> real \<Rightarrow> ExtractedText" where
  "demo_text id' t x y w h fs =
     \<lparr>ext_id = id', ext_text = t, ext_x = Num x, ext_y = Num y, ext_width = Num w,
      ext_height = Num h, ext_fontSize = Num fs, pageIndex = 0\<rparr>"

definition demoTexts :: "ExtractedText list" where
  "demoTexts =
     [demo_text ''demo_1'' ''Demo Text 1 (Click me!)'' 100 100 150 20 14,
      demo_text ''demo_2'' ''Demo Text 2 (Click me!)'' 200 200 150 20 14,
      demo_text ''demo_3'' ''Demo Text 3 (Click me!)'' 300 300 150 20 14]"

definition errorDemoTexts :: "ExtractedText list" where
  "errorDemoTexts =
     [demo_text ''error_demo_1'' ''Error Demo (Click me!)'' 150 150 180 25 16,
      demo_text ''error_demo_2'' ''PDF parsing failed'' 150 200 180 25 14]"

definition timeoutDemoTexts :: "ExtractedText list" where
  "timeoutDemoTexts =
     [demo_text ''timeout_demo_1'' ''Timeout Demo 1 (Click me!)'' 100 100 170 20 14,
      demo_text ''timeout_demo_2'' ''Timeout Demo 2 (Click me!)'' 200 200 170 20 14,
      demo_text ''timeout_demo_3'' ''Text extraction took too long'' 300 300 200 20 12]"

definition testTexts :: "ExtractedText list" where
  "testTexts =
     [demo_text ''test_1'' ''Test Text 1 (Click me!)'' 120 120 160 22 14,
      demo_text ''test_2'' ''Test Text 2 (Click me!)'' 220 220 160 22 14]"

text \<open>
  The body of the \<^verbatim>\<open>try\<close> block of \<^verbatim>\<open>extractTextFromPDF\<close> after \<^verbatim>\<open>setLoading(true)\<close>:
  the list it passes to \<^verbatim>\<open>setExtractedTexts\<close>, or the failure of the first call that
  fails.
\<close>

definition extractTextFromPDF_try :: "'p env \<Rightarrow> File \<Rightarrow> lib_error + ExtractedText list" where
  "extractTextFromPDF_try env file =
     (case arrayBuffer env file of
        Inl e \<Rightarrow> Inl e
      | Inr buffer \<Rightarrow>
     (case getDocument env buffer of
        Inl e \<Rightarrow> Inl e
      | Inr pdf \<Rightarrow>
     (case getPage env pdf 1 of
        Inl e \<Rightarrow> Inl e
      | Inr page \<Rightarrow>
     (case getTextContent env page of
        Inl e \<Rightarrow> Inl e
      | Inr items \<Rightarrow>
     (case getViewport env page of
        Inl e \<Rightarrow> Inl e
      | Inr vp \<Rightarrow>
          (let allTexts = List.map_filter (extract_item vp) (enumerate 0 items)
           in Inr (if length allTexts > 0 then allTexts else demoTexts)))))))"

text \<open>
  The whole function: \<^verbatim>\<open>setLoading(true)\<close>, the body, \<^verbatim>\<open>catch\<close> (the error demo texts) and
  \<^verbatim>\<open>finally\<close> (\<^verbatim>\<open>setLoading(false)\<close>); \<open>Inr\<close> when the returned promise is fulfilled.
\<close>

definition extractTextFromPDF :: "'p env \<Rightarrow> File \<Rightarrow> editor_state \<Rightarrow> lib_error + editor_state" where
  "extractTextFromPDF env file s =
     (let s1 = s\<lparr>loading := True\<rparr> in
      case extractTextFromPDF_try env file of
        Inr texts \<Rightarrow> Inr (s1\<lparr>extractedTexts := texts, loading := False\<rparr>)
      | Inl error \<Rightarrow> Inr (s1\<lparr>extractedTexts := errorDemoTexts, loading := False\<rparr>))"

subsection \<open>Saving\<close>

text \<open>
  The two \<^verbatim>\<open>forEach\<close> loops of \<^verbatim>\<open>saveAnnotations\<close> over the first page, which pdf-lib
  draws on in place: a white rectangle over the fragment of each replacing annotation,
  then the text of every annotation.
\<close>

fun draw_rectangles :: "'p env \<Rightarrow> ExtractedText list \<Rightarrow> 'p \<Rightarrow> TextAnnotation list \<Rightarrow> lib_error + 'p" where
  "draw_rectangles env texts page [] = Inr page"
| "draw_rectangles env texts page (annotation # rest) =
     (case find (\<lambda>t. ext_id t = ann_id annotation) texts of
        None \<Rightarrow> draw_rectangles env texts page rest
      | Some extractedText \<Rightarrow>
          (case drawRectangle env page
                  \<lparr>rect_x = ext_x extractedText,
                   rect_y = js_sub (js_sub (getHeight env page) (ext_y extractedText))
                                   (ext_height extractedText),
                   rect_width = ext_width extractedText,
                   rect_height = ext_height extractedText,
                   rect_color = rgb (Num 1) (Num 1) (Num 1)\<rparr> of
             Inl e \<Rightarrow> Inl e
           | Inr page' \<Rightarrow> draw_rectangles env texts page' rest))"

fun draw_texts :: "'p env \<Rightarrow> 'p \<Rightarrow> TextAnnotation list \<Rightarrow> lib_error + 'p" where
  "draw_texts env page [] = Inr page"
| "draw_texts env page (annotation # rest) =
     (case drawText env page (ann_text annotation)
             \<lparr>text_x = ann_x annotation,
              text_y = js_sub (js_sub (getHeight env page) (ann_y annotation)) (Num 20),
              text_size = ann_fontSize annotation,
              text_color = rgb (Num 0) (Num 0) (Num 0)\<rparr> of
        Inl e \<Rightarrow> Inl e
      | Inr page' \<Rightarrow> draw_texts env page' rest)"

definition saveAnnotations_try :: "'p env \<Rightarrow> File \<Rightarrow> editor_state \<Rightarrow> lib_error + effect list" where
  "saveAnnotations_try env file s =
     (case arrayBuffer env file of
        Inl e \<Rightarrow> Inl e
      | Inr existingPdfBytes \<Rightarrow>
     (case PDFDocument_load env existingPdfBytes of
        Inl e \<Rightarrow> Inl e
      | Inr pages \<Rightarrow>
     (case (case pages of
              [] \<Rightarrow> Inr pages
            | page # others \<Rightarrow>
                (case draw_rectangles env (extractedTexts s) page
                        (filter (\<lambda>ann. ann_type ann = Existing) (textAnnotations s)) of
                   Inl e \<Rightarrow> Inl e
                 | Inr page1 \<Rightarrow>
                     (case draw_texts env page1 (textAnnotations s) of
                        Inl e \<Rightarrow> Inl e
                      | Inr page2 \<Rightarrow> Inr (page2 # others)))) of
        Inl e \<Rightarrow> Inl e
      | Inr pdfDoc \<Rightarrow>
     (case PDFDocument_save env pdfDoc of
        Inl e \<Rightarrow> Inl e
      | Inr pdfBytes \<Rightarrow> Inr [Download (''edited_'' @ file_name file) pdfBytes]))))"

definition saveAnnotations :: "'p env \<Rightarrow> File \<Rightarrow> editor_state \<Rightarrow> lib_error + effect list" where
  "saveAnnotations env file s =
     (case saveAnnotations_try env file s of
        Inr effects \<Rightarrow> Inr effects
      | Inl err \<Rightarrow> Inr [Alert ''Failed to save PDF. Please try again.''])"

subsection \<open>The editor's events\<close>

text \<open>
  Every event the rendered editor reacts to, with the handler the JSX attaches to it.
  The events of an annotation's box, text field and list entry carry the annotation's
  id and exist for rendered annotations only; the edit and delete buttons are rendered
  while \<^verbatim>\<open>selectedAnnotation\<close> is truthy, the demo button in replace mode while loading
  or without extracted texts, and the save button is disabled without annotations.
  \<open>ExtractionStart\<close> is the \<^verbatim>\<open>setLoading(true)\<close> that opens \<^verbatim>\<open>extractTextFromPDF\<close>,
  \<open>ExtractionDone\<close> its completion, \<open>ExtractionTimeout\<close> the five-second timer.
\<close>

datatype editor_event =
    PDFClick mouse_event int
  | AnnotationMouseDown mouse_event string
  | AnnotationClick string
  | PDFMouseMove mouse_event
  | PDFMouseUp
  | TextFieldChange string string
  | TextFieldBlur string
  | TextFieldEnter string
  | AnnotationDoubleClick string
  | EditButtonClick
  | DeleteButtonClick
  | EditListClick string
  | EditModeChange "edit_mode option"
  | ScaleOutClick
  | ScaleInClick
  | ExtractionStart
  | ExtractionDone
  | ExtractionTimeout
  | ShowDemoTextsClick
  | SaveClick

definition rendered :: "string \<Rightarrow> editor_state \<Rightarrow> bool" where
  "rendered id' s = (id' \<in> set (map ann_id (textAnnotations s)))"

definition editing :: "string \<Rightarrow> editor_state \<Rightarrow> bool" where
  "editing id' s = list_ex (\<lambda>ann. ann_id ann = id' \<and> isEditing ann) (textAnnotations s)"

definition not_editing :: "string \<Rightarrow> editor_state \<Rightarrow> bool" where
  "not_editing id' s = list_ex (\<lambda>ann. ann_id ann = id' \<and> \<not> isEditing ann) (textAnnotations s)"

definition editor_step ::
  "'p env \<Rightarrow> File \<Rightarrow> jsnum \<Rightarrow> editor_event \<Rightarrow> editor_state \<Rightarrow> editor_state \<times> effect list" where
  "editor_step env file zoom ev s =
     (case ev of
        PDFClick event now \<Rightarrow> (handlePDFClick zoom event now s, [])
      | AnnotationMouseDown event annotationId \<Rightarrow>
          (if rendered annotationId s then handleMouseDown zoom event annotationId s else s, [])
      | AnnotationClick annotationId \<Rightarrow>
          (if rendered annotationId s \<and> \<not> str_truthy (dragging s)
           then s\<lparr>selectedAnnotation := Some annotationId\<rparr> else s, [])
      | PDFMouseMove event \<Rightarrow> (handleMouseMove zoom event s, [])
      | PDFMouseUp \<Rightarrow> (handleMouseUp s, [])
      | TextFieldChange annotationId v \<Rightarrow>
          (if editing annotationId s
           then updateAnnotation annotationId (no_updates\<lparr>upd_text := Some v\<rparr>) s else s, [])
      | TextFieldBlur annotationId \<Rightarrow>
          (if editing annotationId s
           then updateAnnotation annotationId (no_updates\<lparr>upd_isEditing := Some False\<rparr>) s else s, [])
      | TextFieldEnter annotationId \<Rightarrow>
          (if editing annotationId s
           then updateAnnotation annotationId (no_updates\<lparr>upd_isEditing := Some False\<rparr>) s else s, [])
      | AnnotationDoubleClick annotationId \<Rightarrow>
          (if not_editing annotationId s
           then updateAnnotation annotationId (no_updates\<lparr>upd_isEditing := Some True\<rparr>) s else s, [])
      | EditButtonClick \<Rightarrow>
          (case selectedAnnotation s of
             None \<Rightarrow> (s, [])
           | Some selected \<Rightarrow>
               (if selected \<noteq> []
                then updateAnnotation selected (no_updates\<lparr>upd_isEditing := Some True\<rparr>) s else s, []))
      | DeleteButtonClick \<Rightarrow>
          (case selectedAnnotation s of
             None \<Rightarrow> (s, [])
           | Some selected \<Rightarrow> (if selected \<noteq> [] then deleteAnnotation selected s else s, []))
      | EditListClick annotationId \<Rightarrow>
          (if rendered annotationId s then s\<lparr>selectedAnnotation := Some annotationId\<rparr> else s, [])
      | EditModeChange newMode \<Rightarrow>
          (case newMode of None \<Rightarrow> (s, []) | Some m \<Rightarrow> (s\<lparr>editMode := m\<rparr>, []))
      | ScaleOutClick \<Rightarrow> (s\<lparr>pdfScale := Math_max (Num 0.3) (js_sub (pdfScale s) (Num 0.1))\<rparr>, [])
      | ScaleInClick \<Rightarrow> (s\<lparr>pdfScale := Math_min (Num 2) (js_add (pdfScale s) (Num 0.1))\<rparr>, [])
      | ExtractionStart \<Rightarrow> (s\<lparr>loading := True\<rparr>, [])
      | ExtractionDone \<Rightarrow>
          (case extractTextFromPDF env file s of
             Inr s' \<Rightarrow> (s', [])
           | Inl e \<Rightarrow> (s, []))
      | ExtractionTimeout \<Rightarrow> (s\<lparr>loading := False, extractedTexts := timeoutDemoTexts\<rparr>, [])
      | ShowDemoTextsClick \<Rightarrow>
          (if editMode s = Replace \<and> (loading s \<or> extractedTexts s = [])
           then s\<lparr>loading := False, extractedTexts := testTexts\<rparr> else s, [])
      | SaveClick \<Rightarrow>
          (if textAnnotations s = [] then (s, [])
           else (case saveAnnotations env file s of Inr effects \<Rightarrow> (s, effects) | Inl e \<Rightarrow> (s, []))))"

text \<open>A run of the editor: the events in order, each with the zoom the shell passes at that time.\<close>

fun editor_run :: "'p env \<Rightarrow> File \<Rightarrow> (jsnum \<times> editor_event) list \<Rightarrow> editor_state \<Rightarrow> editor_state" where
  "editor_run env file [] s = s"
| "editor_run env file (zev # rest) s =
     editor_run env file rest (fst (editor_step env file (fst zev) (snd zev) s))"

section \<open>Derived notions and sample data\<close>

text \<open>
  The pages of a file: what \<^verbatim>\<open>PDFDocument.load\<close> gives for the bytes \<^verbatim>\<open>arrayBuffer\<close>
  reads, \<open>None\<close> when either call fails.
\<close>

definition pages_of :: "'p env \<Rightarrow> File \<Rightarrow> 'p list option" where
  "pages_of env f =
     (case arrayBuffer env f of
        Inl e \<Rightarrow> None
      | Inr b \<Rightarrow> (case PDFDocument_load env b of Inl e \<Rightarrow> None | Inr ps \<Rightarrow> Some ps))"

text \<open>The pages of the listed files, one file after the other in list order.\<close>

definition merged_pages :: "'p env \<Rightarrow> PDFFile list \<Rightarrow> 'p list" where
  "merged_pages env files =
     concat (map (\<lambda>entry. case pages_of env (pf_file entry) of None \<Rightarrow> [] | Some ps \<Rightarrow> ps) files)"

text \<open>
  A small library for concrete runs: the bytes of a file are its pages, an empty file
  does not parse, and drawing and saving always succeed.
\<close>

definition sample_env :: "nat env" where
  "sample_env =
     \<lparr>arrayBuffer = (\<lambda>f. Inr (file_data f)),
      PDFDocument_load = (\<lambda>b. if b = [] then Inl (LibError ''No PDF header found'') else Inr b),
      PDFDocument_save = (\<lambda>ps. Inr ps),
      getHeight = (\<lambda>p. Num 1000),
      drawRectangle = (\<lambda>p opts. Inr p),
      drawText = (\<lambda>p t opts. Inr p),
      getDocument = (\<lambda>b. if b = [] then Inl (LibError ''Invalid PDF structure'') else Inr 0),
      getPage = (\<lambda>d n. Inr 0),
      getTextContent = (\<lambda>h. Inr []),
      getViewport = (\<lambda>h. Inr \<lparr>viewport_width = Num 800, viewport_height = Num 1000\<rparr>)\<rparr>"

definition sample_file :: "string \<Rightarrow> string \<Rightarrow> bytes \<Rightarrow> File" where
  "sample_file n t b = \<lparr>file_name = n, file_type = t, file_data = b\<rparr>"

definition sample_entry :: "string \<Rightarrow> string \<Rightarrow> bytes \<Rightarrow> PDFFile" where
  "sample_entry id' n b =
     \<lparr>pf_id = id', pf_file = sample_file n ''application/pdf'' b, pf_name = n, pf_pages = 0\<rparr>"

definition sample_list :: merger_state where
  "sample_list =
     \<lparr>pdfFiles = [sample_entry ''1'' ''a.pdf'' [10, 11], sample_entry ''20.5'' ''b.pdf'' [20],
                  sample_entry ''30.25'' ''c.pdf'' [30, 31]],
      merging = False\<rparr>"

definition single_list :: merger_state where
  "single_list = merger_init (sample_file ''a.pdf'' ''application/pdf'' [10, 11])"

definition unreadable_list :: merger_state where
  "unreadable_list =
     \<lparr>pdfFiles = [sample_entry ''1'' ''a.pdf'' [10, 11], sample_entry ''20.5'' ''broken.pdf'' []],
      merging = False\<rparr>"

text \<open>
  The ids an event of the merger generates, those of a whole run, and the invariant
  behind the non-empty merge list: the list is not empty, its ids are pairwise distinct
  and each of them has been generated (or is the id of the primary file).
\<close>

fun generated_ids :: "merger_event \<Rightarrow> string list" where
  "generated_ids (AddFilesChange (Some fs) readings) =
     map (\<lambda>kf. pf_id (new_PDFFile readings kf)) (enumerate 0 fs)"
| "generated_ids ev = []"

definition all_generated_ids :: "merger_event list \<Rightarrow> string list" where
  "all_generated_ids evs = concat (map generated_ids evs)"

definition merger_inv :: "string list \<Rightarrow> merger_state \<Rightarrow> bool" where
  "merger_inv used s =
     (pdfFiles s \<noteq> [] \<and> distinct (map pf_id (pdfFiles s)) \<and>
      list_all (\<lambda>i. i \<in> set used) (map pf_id (pdfFiles s)))"


text \<open>An annotation whose position lies on the 800 by 1000 page, by JavaScript's comparisons.\<close>

definition in_page :: "TextAnnotation \<Rightarrow> bool" where
  "in_page ann =
     (js_le (Num 0) (ann_x ann) \<and> js_le (ann_x ann) (Num 800) \<and>
      js_le (Num 0) (ann_y ann) \<and> js_le (ann_y ann) (Num 1000))"

text \<open>
  An id that starts like a printed clock reading: with a digit or a minus sign. The
  ids of the extracted and of the placeholder fragments all start with a letter.
\<close>

definition clock_like :: "string \<Rightarrow> bool" where
  "clock_like i = (case i of [] \<Rightarrow> False | c # _ \<Rightarrow> c \<in> set ''-0123456789'')"

text \<open>
  The invariant of the editor behind the claim on replaced fragments: no fragment id
  looks like a clock reading, and among the annotation ids those that do not look like
  a clock reading are pairwise distinct.
\<close>

definition editor_inv :: "editor_state \<Rightarrow> bool" where
  "editor_inv s =
     (list_all (\<lambda>t. \<not> clock_like (ext_id t)) (extractedTexts s) \<and>
      distinct (filter (\<lambda>i. \<not> clock_like i) (map ann_id (textAnnotations s))))"

text \<open>
  The clock readings of the clicks on the page in a run, and the invariant behind the
  distinctness of annotation ids: the ids are pairwise distinct, and each id that looks
  like a clock reading is the printed form of a reading already used.
\<close>

fun click_time :: "editor_event \<Rightarrow> int list" where
  "click_time (PDFClick event now) = [now]"
| "click_time ev = []"

definition click_times :: "(jsnum \<times> editor_event) list \<Rightarrow> int list" where
  "click_times evs = concat (map (\<lambda>zev. click_time (snd zev)) evs)"

definition ids_inv :: "int list \<Rightarrow> editor_state \<Rightarrow> bool" where
  "ids_inv used s =
     (list_all (\<lambda>t. \<not> clock_like (ext_id t)) (extractedTexts s) \<and>
      distinct (map ann_id (textAnnotations s)) \<and>
      list_all (\<lambda>i. clock_like i \<longrightarrow> i \<in> set (map toString used)) (map ann_id (textAnnotations s)))"

text \<open>
  Sample data of the editor. The page frame sits at (100, 50) and is 640 by 800 at the
  initial scale 0.8; \<open>sample_click\<close> hits the page at (400, 500), \<open>fragment_click\<close> hits
  the first demo fragment at (110, 110).
\<close>

definition sample_pdf :: File where
  "sample_pdf = \<lparr>file_name = ''a.pdf'', file_type = ''application/pdf'', file_data = [10, 11]\<rparr>"

definition sample_click :: mouse_event where
  "sample_click =
     \<lparr>clientX = Num 420, clientY = Num 530, bounds_left = Num 100, bounds_top = Num 50,
      bounds_width = Num 640, bounds_height = Num 800\<rparr>"

definition fragment_click :: mouse_event where
  "fragment_click =
     \<lparr>clientX = Num 188, clientY = Num 218, bounds_left = Num 100, bounds_top = Num 50,
      bounds_width = Num 640, bounds_height = Num 800\<rparr>"

definition replace_events :: "(jsnum \<times> editor_event) list" where
  "replace_events =
     [(Num 1, ExtractionDone), (Num 1, EditModeChange (Some Replace)),
      (Num 1, PDFClick fragment_click 1000), (Num 1, TextFieldBlur ''demo_1'')]"

definition replaced_state :: editor_state where
  "replaced_state = editor_run sample_env sample_pdf replace_events editor_init"

definition sample_annotation :: TextAnnotation where
  "sample_annotation =
     \<lparr>ann_id = ''1000'', ann_x = Num 400, ann_y = Num 500, ann_text = ''New text'',
      ann_fontSize = Num 14, isEditing = True, ann_type = New, originalText = None\<rparr>"

definition drag_state :: editor_state where
  "drag_state =
     editor_init\<lparr>textAnnotations := [sample_annotation], selectedAnnotation := Some ''1000'',
                  dragging := Some ''1000'', dragOffset := (Num 10, Num 10)\<rparr>"

definition far_move :: mouse_event where
  "far_move =
     \<lparr>clientX = Num 2000, clientY = Num 20, bounds_left = Num 100, bounds_top = Num 50,
      bounds_width = Num 640, bounds_height = Num 800\<rparr>"

definition grab :: mouse_event where
  "grab =
     \<lparr>clientX = Num 430, clientY = Num 560, bounds_left = Num 420, bounds_top = Num 550,
      bounds_width = Num 150, bounds_height = Num 30\<rparr>"

text \<open>
  Two drags of the annotation that \<open>sample_click\<close> places at (400, 500). In the first
  the shell's zoom is Infinity, which is what \<^verbatim>\<open>setZoom(zoom * 1.2)\<close> leaves after 3894
  clicks on zoom-in (the product overflows). In the second the zoom is still finite,
  about 1.035e308 as after 3890 clicks, and the editor's own scale has been raised to
  its maximum 2 by twelve clicks.
\<close>

definition infinite_zoom_drag :: "(jsnum \<times> editor_event) list" where
  "infinite_zoom_drag =
     [(Num 1, PDFClick sample_click 1000),
      (PosInf, AnnotationMouseDown grab ''1000''),
      (PosInf, PDFMouseMove far_move)]"

definition huge_zoom :: jsnum where
  "huge_zoom = Num (1035254495969808 * 10 ^ 293)"

definition huge_zoom_drag :: "(jsnum \<times> editor_event) list" where
  "huge_zoom_drag =
     (Num 1, PDFClick sample_click 1000) # replicate 12 (Num 1, ScaleInClick) @
     [(huge_zoom, AnnotationMouseDown grab ''1000''),
      (huge_zoom, PDFMouseMove far_move)]"

section \<open>Properties\<close>

subsection \<open>Helper lemmas\<close>

lemma copy_all_pages: "copyPages pdf (getPageIndices pdf) = pdf"
  by (simp add: copyPages_def getPageIndices_def map_nth)

lemma foldl_addPage: "foldl addPage doc ps = doc @ ps"
  by (induction ps arbitrary: doc) (simp_all add: addPage_def)

lemma merge_loop_all_loaded:
  "\<forall>entry \<in> set files. pages_of env (pf_file entry) \<noteq> None \<Longrightarrow>
   merge_loop env doc files = Inr (doc @ merged_pages env files)"
  by (induction files arbitrary: doc)
     (auto simp: pages_of_def merged_pages_def copy_all_pages foldl_addPage split: sum.splits)

lemma merge_loop_some_failed:
  "\<exists>entry \<in> set files. pages_of env (pf_file entry) = None \<Longrightarrow>
   \<exists>err. merge_loop env doc files = Inl err"
  by (induction files arbitrary: doc)
     (auto simp: pages_of_def split: sum.splits)

lemma filter_keeps_one_of_distinct:
  assumes "length xs > 1" and "distinct (map f xs)"
  shows "filter (\<lambda>x. f x \<noteq> k) xs \<noteq> []"
proof
  assume "filter (\<lambda>x. f x \<noteq> k) xs = []"
  then have same: "\<forall>x \<in> set xs. f x = k"
    by (simp add: filter_empty_conv)
  from assms(1) obtain a b rest where xs: "xs = a # b # rest"
    by (cases xs; cases "tl xs") auto
  with same have "f a = f b" by simp
  with assms(2) xs show False by simp
qed

lemmas toString_eval = toString_def digits.simps digit_char_def

subsection \<open>The merger\<close>

text \<open>
  C1, as amended. When every listed file is read and loaded and the merged document
  is serialised, \<^verbatim>\<open>mergePDFs\<close> builds the document whose pages are the pages of the
  listed files, file after file in list order, and starts exactly one download, of that
  document's bytes. When a listed file cannot be read or loaded, or the document cannot
  be serialised, it shows the alert and downloads nothing.
\<close>

theorem mergePDFs_concatenates:
  "((\<forall>entry \<in> set (pdfFiles s). pages_of env (pf_file entry) \<noteq> None) \<longrightarrow>
      merge_loop env PDFDocument_create (pdfFiles s) = Inr (merged_pages env (pdfFiles s)) \<and>
      (PDFDocument_save env (merged_pages env (pdfFiles s)) = Inr pdfBytes \<longrightarrow>
         mergePDFs env now s =
           Inr (s\<lparr>merging := False\<rparr>, [Download (''merged_'' @ toString now @ ''.pdf'') pdfBytes])) \<and>
      (PDFDocument_save env (merged_pages env (pdfFiles s)) = Inl err \<longrightarrow>
         mergePDFs env now s =
           Inr (s\<lparr>merging := False\<rparr>, [Alert ''Failed to merge PDFs. Please try again.'']))) \<and>
   ((\<exists>entry \<in> set (pdfFiles s). pages_of env (pf_file entry) = None) \<longrightarrow>
      mergePDFs env now s =
        Inr (s\<lparr>merging := False\<rparr>, [Alert ''Failed to merge PDFs. Please try again.'']))"
proof (intro conjI impI)
  assume ok: "\<forall>entry \<in> set (pdfFiles s). pages_of env (pf_file entry) \<noteq> None"
  then show loop: "merge_loop env PDFDocument_create (pdfFiles s) = Inr (merged_pages env (pdfFiles s))"
    by (simp add: merge_loop_all_loaded PDFDocument_create_def)
  {
    assume "PDFDocument_save env (merged_pages env (pdfFiles s)) = Inr pdfBytes"
    with loop show "mergePDFs env now s =
        Inr (s\<lparr>merging := False\<rparr>, [Download (''merged_'' @ toString now @ ''.pdf'') pdfBytes])"
      by (simp add: mergePDFs_def mergePDFs_try_def)
  }
  {
    assume "PDFDocument_save env (merged_pages env (pdfFiles s)) = Inl err"
    with loop show "mergePDFs env now s =
        Inr (s\<lparr>merging := False\<rparr>, [Alert ''Failed to merge PDFs. Please try again.''])"
      by (simp add: mergePDFs_def mergePDFs_try_def)
  }
next
  assume "\<exists>entry \<in> set (pdfFiles s). pages_of env (pf_file entry) = None"
  then obtain e where "merge_loop env PDFDocument_create (pdfFiles s) = Inl e"
    using merge_loop_some_failed by blast
  then show "mergePDFs env now s =
      Inr (s\<lparr>merging := False\<rparr>, [Alert ''Failed to merge PDFs. Please try again.''])"
    by (simp add: mergePDFs_def mergePDFs_try_def)
qed

theorem mergePDFs_concatenates_witness:
  "merge_loop sample_env PDFDocument_create (pdfFiles sample_list) = Inr [10, 11, 20, 30, 31] \<and>
   mergePDFs sample_env 1000 sample_list =
     Inr (sample_list, [Download ''merged_1000.pdf'' [10, 11, 20, 30, 31]]) \<and>
   mergePDFs sample_env 1000 unreadable_list =
     Inr (unreadable_list, [Alert ''Failed to merge PDFs. Please try again.''])"
proof -
  have pages: "merged_pages sample_env (pdfFiles sample_list) = [10, 11, 20, 30, 31]"
    by (simp add: merged_pages_def pages_of_def sample_env_def sample_list_def sample_entry_def
        sample_file_def)
  have loaded: "\<forall>entry \<in> set (pdfFiles sample_list). pages_of sample_env (pf_file entry) \<noteq> None"
    by (simp add: pages_of_def sample_env_def sample_list_def sample_entry_def sample_file_def)
  have saved: "PDFDocument_save sample_env (merged_pages sample_env (pdfFiles sample_list))
                 = Inr [10, 11, 20, 30, 31]"
    by (simp add: pages) (simp add: sample_env_def)
  have broken: "\<exists>entry \<in> set (pdfFiles unreadable_list). pages_of sample_env (pf_file entry) = None"
    by (simp add: pages_of_def sample_env_def unreadable_list_def sample_entry_def sample_file_def)
  have name: "''merged_'' @ toString 1000 @ ''.pdf'' = ''merged_1000.pdf''"
    by (simp add: toString_eval)
  have same1: "sample_list\<lparr>merging := False\<rparr> = sample_list"
    by (simp add: sample_list_def)
  have same2: "unreadable_list\<lparr>merging := False\<rparr> = unreadable_list"
    by (simp add: unreadable_list_def)
  from mergePDFs_concatenates [of sample_list sample_env "[10, 11, 20, 30, 31]" 1000] loaded saved
  have a: "merge_loop sample_env PDFDocument_create (pdfFiles sample_list)
             = Inr (merged_pages sample_env (pdfFiles sample_list)) \<and>
           mergePDFs sample_env 1000 sample_list =
             Inr (sample_list\<lparr>merging := False\<rparr>,
                  [Download (''merged_'' @ toString 1000 @ ''.pdf'') [10, 11, 20, 30, 31]])"
    by blast
  from mergePDFs_concatenates [of unreadable_list sample_env _ 1000] broken
  have b: "mergePDFs sample_env 1000 unreadable_list =
             Inr (unreadable_list\<lparr>merging := False\<rparr>,
                  [Alert ''Failed to merge PDFs. Please try again.''])"
    by blast
  from a b show ?thesis
    by (simp only: pages name same1 same2) 
qed

text \<open>
  C1 as stated fails: a merge list of two files, the second of which the library
  cannot load, gives the alert and no download.
\<close>

theorem mergePDFs_no_download_counterexample:
  "merger_step sample_env (MergeClick 1000) unreadable_list =
     (unreadable_list, [Alert ''Failed to merge PDFs. Please try again.''])"
  by (simp add: merger_step_def merge_button_disabled_def mergePDFs_def mergePDFs_try_def
      PDFDocument_create_def unreadable_list_def sample_entry_def sample_file_def sample_env_def
      copy_all_pages foldl_addPage)


text \<open>
  Repeated ids are the only way to an empty list: in every run of the merger from its
  initial state in which the generated ids are pairwise distinct and differ from the
  primary file's id, the list stays non-empty and its ids stay pairwise distinct. And a
  list of exactly one entry is never changed by \<^verbatim>\<open>removeFile\<close>.
\<close>

lemma removeFile_single: "length (pdfFiles s) = 1 \<Longrightarrow> removeFile id' s = s"
  by (simp add: removeFile_def)

lemma merger_inv_same_files:
  "pdfFiles s' = pdfFiles s \<Longrightarrow> merger_inv used s' = merger_inv used s"
  by (simp add: merger_inv_def)

lemma merger_inv_more: "merger_inv used s \<Longrightarrow> merger_inv (new @ used) s"
  by (auto simp: merger_inv_def list_all_iff)

lemma merger_inv_permuted:
  assumes "merger_inv used s" and "mset (pdfFiles s') = mset (pdfFiles s)"
  shows "merger_inv used s'"
proof -
  from assms(2) have ids: "mset (map pf_id (pdfFiles s')) = mset (map pf_id (pdfFiles s))"
    by (metis mset_map)
  from assms(2) have "pdfFiles s' \<noteq> [] \<longleftrightarrow> pdfFiles s \<noteq> []"
    by (metis mset_zero_iff)
  moreover from ids have "distinct (map pf_id (pdfFiles s')) \<longleftrightarrow> distinct (map pf_id (pdfFiles s))"
    by (rule mset_eq_imp_distinct_iff)
  moreover from ids have "set (map pf_id (pdfFiles s')) = set (map pf_id (pdfFiles s))"
    by (rule mset_eq_setD)
  ultimately show ?thesis
    using assms(1) by (simp add: merger_inv_def list_all_iff)
qed

lemma merger_inv_removeFile: "merger_inv used s \<Longrightarrow> merger_inv used (removeFile id' s)"
  by (auto simp: merger_inv_def removeFile_def filter_keeps_one_of_distinct distinct_map_filter
      list_all_iff)

lemma handleAddFiles_ids:
  "map pf_id (pdfFiles (handleAddFiles files readings s)) =
     map pf_id (pdfFiles s) @ generated_ids (AddFilesChange files readings)"
  by (cases files) (simp_all add: handleAddFiles_def)

lemma merger_inv_handleAddFiles:
  assumes "merger_inv used s" and "distinct (generated_ids (AddFilesChange files readings))"
    and "set (generated_ids (AddFilesChange files readings)) \<inter> set used = {}"
  shows "merger_inv (generated_ids (AddFilesChange files readings) @ used)
           (handleAddFiles files readings s)"
proof -
  let ?new = "generated_ids (AddFilesChange files readings)"
  from assms(1) have old: "pdfFiles s \<noteq> []" "distinct (map pf_id (pdfFiles s))"
      "set (map pf_id (pdfFiles s)) \<subseteq> set used"
    by (auto simp: merger_inv_def list_all_iff)
  from old(1) have "pdfFiles (handleAddFiles files readings s) \<noteq> []"
    by (cases files) (simp_all add: handleAddFiles_def)
  moreover from old(2,3) assms(2,3)
  have "distinct (map pf_id (pdfFiles s) @ ?new)" by auto
  moreover from old(3) have "set (map pf_id (pdfFiles s) @ ?new) \<subseteq> set (?new @ used)" by auto
  ultimately show ?thesis
    by (auto simp: merger_inv_def handleAddFiles_ids list_all_iff)
qed

lemma merger_inv_step:
  assumes inv: "merger_inv used s" and new: "distinct (generated_ids ev)"
    and fresh: "set (generated_ids ev) \<inter> set used = {}"
  shows "merger_inv (generated_ids ev @ used) (fst (merger_step env ev s))"
proof (cases ev)
  case (AddFilesChange files readings)
  with merger_inv_handleAddFiles [OF inv, of files readings] new fresh show ?thesis
    by (simp add: merger_step_def)
next
  case (MoveUpClick index)
  have "merger_inv used (fst (merger_step env (MoveUpClick index) s))"
  proof (rule merger_inv_permuted [OF inv])
    show "mset (pdfFiles (fst (merger_step env (MoveUpClick index) s))) = mset (pdfFiles s)"
      by (auto simp: merger_step_def moveFileUp_def mset_swap)
  qed
  with MoveUpClick show ?thesis by simp
next
  case (MoveDownClick index)
  have "merger_inv used (fst (merger_step env (MoveDownClick index) s))"
  proof (rule merger_inv_permuted [OF inv])
    show "mset (pdfFiles (fst (merger_step env (MoveDownClick index) s))) = mset (pdfFiles s)"
      by (auto simp: merger_step_def moveFileDown_def mset_swap)
  qed
  with MoveDownClick show ?thesis by simp
next
  case (RemoveClick index)
  with inv show ?thesis by (simp add: merger_step_def merger_inv_removeFile)
next
  case (MergeClick now)
  have "merger_inv used (fst (merger_step env (MergeClick now) s)) = merger_inv used s"
    by (rule merger_inv_same_files)
       (auto simp: merger_step_def mergePDFs_def split: sum.splits)
  with inv MergeClick show ?thesis by simp
qed

lemma merger_inv_run:
  "merger_inv used s \<Longrightarrow> distinct (all_generated_ids evs) \<Longrightarrow>
     set (all_generated_ids evs) \<inter> set used = {} \<Longrightarrow>
     \<exists>used'. merger_inv used' (merger_run env evs s)"
proof (induction evs arbitrary: s used)
  case Nil
  then show ?case by auto
next
  case (Cons ev evs)
  from Cons.prems have "distinct (generated_ids ev)" "set (generated_ids ev) \<inter> set used = {}"
    by (auto simp: all_generated_ids_def)
  from merger_inv_step [OF Cons.prems(1) this]
  have step: "merger_inv (generated_ids ev @ used) (fst (merger_step env ev s))" .
  from Cons.prems have "distinct (all_generated_ids evs)"
    and "set (all_generated_ids evs) \<inter> set (generated_ids ev @ used) = {}"
    by (auto simp: all_generated_ids_def)
  from Cons.IH [OF step this] show ?case by simp
qed

lemma merge_list_nonempty_for_distinct_ids:
  assumes "distinct (''1'' # all_generated_ids evs)"
  shows "pdfFiles (merger_run env evs (merger_init primaryFile)) \<noteq> [] \<and>
         distinct (map pf_id (pdfFiles (merger_run env evs (merger_init primaryFile))))"
proof -
  have "merger_inv [''1''] (merger_init primaryFile)"
    by (simp add: merger_inv_def merger_init_def)
  from merger_inv_run [OF this, of evs env] assms show ?thesis
    by (auto simp: merger_inv_def)
qed

text \<open>
  C6. In every state whose merge list has at most one entry the merge button is
  rendered disabled, and a click on it neither changes the state nor has any effect:
  \<^verbatim>\<open>mergePDFs\<close> is not run.
\<close>

theorem merge_disabled_below_two:
  "length (pdfFiles s) \<le> 1 \<Longrightarrow>
     merge_button_disabled s \<and> merger_step env (MergeClick now) s = (s, [])"
  by (simp add: merge_button_disabled_def merger_step_def)

theorem merge_disabled_below_two_witness:
  "length (pdfFiles single_list) \<le> 1 \<and> merge_button_disabled single_list \<and>
   merger_step sample_env (MergeClick 1000) single_list = (single_list, [])"
proof -
  have h: "length (pdfFiles single_list) \<le> 1"
    by (simp add: single_list_def merger_init_def)
  from merge_disabled_below_two [OF h, of sample_env 1000] h show ?thesis by simp
qed

text \<open>
  C7. At every index of a row of the merge list, moving the row up and moving it down
  each give a list with exactly the same entries, each as often as before.
\<close>

theorem reorder_preserves_entries:
  "index < length (pdfFiles s) \<Longrightarrow>
     (\<exists>s'. moveFileUp index s = Some s' \<and> mset (pdfFiles s') = mset (pdfFiles s)) \<and>
     mset (pdfFiles (moveFileDown index s)) = mset (pdfFiles s) \<and>
     mset (pdfFiles (fst (merger_step env (MoveUpClick index) s))) = mset (pdfFiles s) \<and>
     mset (pdfFiles (fst (merger_step env (MoveDownClick index) s))) = mset (pdfFiles s)"
  by (auto simp: moveFileUp_def moveFileDown_def merger_step_def mset_swap)

theorem reorder_preserves_entries_witness:
  "(1::nat) < length (pdfFiles sample_list) \<and>
   (\<exists>s'. moveFileUp 1 sample_list = Some s' \<and> mset (pdfFiles s') = mset (pdfFiles sample_list)) \<and>
   mset (pdfFiles (moveFileDown 1 sample_list)) = mset (pdfFiles sample_list)"
proof -
  have h: "(1::nat) < length (pdfFiles sample_list)"
    by (simp add: sample_list_def)
  from reorder_preserves_entries [OF h] h show ?thesis by blast
qed

subsection \<open>The shell\<close>

text \<open>
  C4. The claim is that a file that is not a PDF is rejected at every picker, the
  merger's included. The shell's \<^verbatim>\<open>handleFileUpload\<close> tests the MIME type and leaves its
  state alone for a \<^verbatim>\<open>text/plain\<close> file. The merger's \<^verbatim>\<open>handleAddFiles\<close> makes no such
  test: the same file, delivered by the merger's picker, is added to the merge list.
\<close>

theorem merger_adds_non_pdf:
  "handleFileUpload (Some [sample_file ''notes.txt'' ''text/plain'' [1]]) app_init = app_init \<and>
   map (\<lambda>entry. file_type (pf_file entry))
     (pdfFiles (handleAddFiles (Some [sample_file ''notes.txt'' ''text/plain'' [1]])
                  (\<lambda>k. (1000, ''0.5'')) single_list))
     = [''application/pdf'', ''text/plain''] \<and>
   map pf_name
     (pdfFiles (fst (merger_step sample_env
                  (AddFilesChange (Some [sample_file ''notes.txt'' ''text/plain'' [1]])
                     (\<lambda>k. (1000, ''0.5''))) single_list)))
     = [''a.pdf'', ''notes.txt'']"
  by (simp add: handleFileUpload_def first_file_def app_init_def sample_file_def
      handleAddFiles_def new_PDFFile_def single_list_def merger_init_def merger_step_def
      enumerate_eq_zip)

text \<open>
  What holds of the pickers: for every picked list, \<^verbatim>\<open>handleAddFiles\<close> adds all of it
  whatever the types; \<^verbatim>\<open>handleFileUpload\<close> leaves the whole state as it was when the
  first file's MIME type is not \<^verbatim>\<open>application/pdf\<close>; and every file input the
  application renders has the \<^verbatim>\<open>accept\<close> attribute \<^verbatim>\<open>.pdf\<close>, which presets the filter of
  the file dialog and is no test.
\<close>

lemma handleAddFiles_any_type:
  "map pf_file (pdfFiles (handleAddFiles (Some picked) readings s)) = map pf_file (pdfFiles s) @ picked"
proof -
  have "map pf_file (map (new_PDFFile readings) (enumerate n picked)) = picked" for n
    by (induction picked arbitrary: n) (simp_all add: new_PDFFile_def)
  then show ?thesis by (simp add: handleAddFiles_def)
qed

lemma handleFileUpload_rejects_non_pdf:
  "(first_file files = Some file \<longrightarrow> file_type file \<noteq> ''application/pdf'' \<longrightarrow>
      handleFileUpload files s = s) \<and>
   (\<forall>inp \<in> set (rendered_file_inputs s). accept inp = ''.pdf'') \<and>
   PDFMerger_file_input \<in> set (rendered_file_inputs (s\<lparr>app_pdfFile := Some file, app_mode := Merge\<rparr>))"
  by (auto simp: handleFileUpload_def rendered_file_inputs_def App_file_input_def
      PDFMerger_file_input_def split: option.splits mode.splits)

subsection \<open>Failures of the libraries\<close>



subsection \<open>The editor: helper lemmas\<close>

lemmas js_eval = js_sub_def js_gt_def js_ge_def js_le_def Math_max_def Math_min_def signed_inf_def
  to_double_def

lemma clamp_in_range:
  "0 \<le> hi \<Longrightarrow> v \<noteq> NaN \<Longrightarrow>
     js_le (Num 0) (Math_max (Num 0) (Math_min (Num hi) v)) \<and>
     js_le (Math_max (Num 0) (Math_min (Num hi) v)) (Num hi)"
  by (cases v) (auto simp: js_eval)

lemma spread_id: "upd_id updates = None \<Longrightarrow> ann_id (spread ann updates) = ann_id ann"
  by (simp add: spread_def or_keep_def)

lemma spread_xy:
  "ann_x (spread ann (no_updates\<lparr>upd_x := Some vx, upd_y := Some vy\<rparr>)) = vx"
  "ann_y (spread ann (no_updates\<lparr>upd_x := Some vx, upd_y := Some vy\<rparr>)) = vy"
  by (simp_all add: spread_def or_keep_def no_updates_def)

lemma spread_isEditing:
  "spread ann (no_updates\<lparr>upd_isEditing := Some b\<rparr>) = ann\<lparr>isEditing := b\<rparr>"
  by (simp add: spread_def or_keep_def no_updates_def)

lemma updateAnnotation_members:
  assumes "upd_id updates = None"
    and "ann' \<in> set (textAnnotations (updateAnnotation d updates s))" and "ann_id ann' = d"
  shows "\<exists>ann \<in> set (textAnnotations s). ann' = spread ann updates"
proof -
  from assms(2) obtain ann where ann: "ann \<in> set (textAnnotations s)"
      "ann' = (if ann_id ann = d then spread ann updates else ann)"
    by (auto simp: updateAnnotation_def)
  show ?thesis
  proof (cases "ann_id ann = d")
    case True
    with ann show ?thesis by auto
  next
    case False
    with ann assms(3) show ?thesis by simp
  qed
qed

lemma updateAnnotation_ids:
  "upd_id updates = None \<Longrightarrow>
     map ann_id (textAnnotations (updateAnnotation d updates s)) = map ann_id (textAnnotations s)"
  by (simp add: updateAnnotation_def spread_id)

lemma updateAnnotation_extracted:
  "extractedTexts (updateAnnotation d updates s) = extractedTexts s"
  by (simp add: updateAnnotation_def)

lemma digits_hd: "digits n \<noteq> [] \<and> hd (digits n) \<in> set ''0123456789''"
proof (induction n rule: digits.induct)
  case (1 n)
  show ?case
  proof (cases "n < 10")
    case True
    have "''0123456789'' ! (n mod 10) \<in> set ''0123456789''"
      by (rule nth_mem) simp
    with True show ?thesis by (simp add: digits.simps [of n] digit_char_def)
  next
    case False
    with 1 show ?thesis by (simp add: digits.simps [of n])
  qed
qed

lemma toString_nonempty: "toString n \<noteq> []"
  using digits_hd by (simp add: toString_def)

lemma clock_like_toString: "clock_like (toString n)"
proof (cases "n < 0")
  case True
  then show ?thesis by (simp add: toString_def clock_like_def)
next
  case False
  from digits_hd [of "nat n"] obtain c cs where "digits (nat n) = c # cs" "c \<in> set ''0123456789''"
    by (cases "digits (nat n)") auto
  with False show ?thesis by (auto simp add: toString_def clock_like_def)
qed

text \<open>Every handler keeps the invariant.\<close>

lemma editor_inv_cong:
  "map ann_id (textAnnotations s') = map ann_id (textAnnotations s) \<Longrightarrow>
   extractedTexts s' = extractedTexts s \<Longrightarrow> editor_inv s' = editor_inv s"
  by (simp add: editor_inv_def)

lemma inv_updateAnnotation:
  "upd_id updates = None \<Longrightarrow> editor_inv (updateAnnotation d updates s) = editor_inv s"
  by (rule editor_inv_cong) (simp_all add: updateAnnotation_ids updateAnnotation_extracted)

lemma distinct_filter_map_filter:
  "distinct (filter P (map f xs)) \<Longrightarrow> distinct (filter P (map f (filter (\<lambda>x. f x \<noteq> d) xs)))"
  by (induction xs) auto

lemma inv_deleteAnnotation: "editor_inv s \<Longrightarrow> editor_inv (deleteAnnotation d s)"
  by (simp add: editor_inv_def deleteAnnotation_def distinct_filter_map_filter)

lemma inv_append_clock:
  "editor_inv s \<Longrightarrow> clock_like (ann_id a) \<Longrightarrow>
     editor_inv (s\<lparr>textAnnotations := textAnnotations s @ [a], selectedAnnotation := sel\<rparr>)"
  by (simp add: editor_inv_def)

lemma inv_append_fresh:
  "editor_inv s \<Longrightarrow> ann_id a \<notin> set (map ann_id (textAnnotations s)) \<Longrightarrow>
     editor_inv (s\<lparr>textAnnotations := textAnnotations s @ [a], selectedAnnotation := sel\<rparr>)"
  by (auto simp add: editor_inv_def)

lemma find_None_ids:
  "find (\<lambda>ann. ann_id ann = i) anns = None \<Longrightarrow> i \<notin> set (map ann_id anns)"
  by (auto simp: find_None_iff)

lemma find_id_Some:
  "i \<in> set (map ann_id anns) \<Longrightarrow> \<exists>a. find (\<lambda>ann. ann_id ann = i) anns = Some a \<and> ann_id a = i"
  by (induction anns) auto

lemma inv_handlePDFClick: "editor_inv s \<Longrightarrow> editor_inv (handlePDFClick zoom event now s)"
proof -
  assume inv: "editor_inv s"
  show ?thesis
  proof (cases "str_truthy (dragging s) \<or> outside_pdf_area (click_coords zoom event s)")
    case True
    with inv show ?thesis by (auto simp: handlePDFClick_def Let_def)
  next
    case False
    note live = this
    show ?thesis
    proof (cases "editMode s")
      case Add
      with live inv_append_clock [OF inv, of _ "Some (toString now)"] clock_like_toString [of now]
      show ?thesis by (simp add: handlePDFClick_def Let_def)
    next
      case Replace
      show ?thesis
      proof (cases "find (isInBounds (click_coords zoom event s)) (extractedTexts s)")
        case None
        with live Replace inv show ?thesis by (simp add: handlePDFClick_def Let_def)
      next
        case (Some clickedText)
        show ?thesis
        proof (cases "find (\<lambda>ann. ann_id ann = ext_id clickedText) (textAnnotations s)")
          case None
          from find_None_ids [OF None] inv_append_fresh [OF inv, of _ "Some (ext_id clickedText)"]
               live Replace Some None
          show ?thesis by (simp add: handlePDFClick_def Let_def)
        next
          case (Some existingAnnotation)
          have "editor_inv ((updateAnnotation (ann_id existingAnnotation)
                  (no_updates\<lparr>upd_isEditing := Some True\<rparr>) s)
                  \<lparr>selectedAnnotation := Some (ann_id existingAnnotation)\<rparr>)
                = editor_inv s"
            by (rule editor_inv_cong)
               (simp_all add: updateAnnotation_ids updateAnnotation_extracted no_updates_def)
          with inv live Replace \<open>find (isInBounds (click_coords zoom event s)) (extractedTexts s)
               = Some clickedText\<close> Some
          show ?thesis by (simp add: handlePDFClick_def Let_def)
        qed
      qed
    qed
  qed
qed

lemma inv_handleMouseDown: "editor_inv (handleMouseDown zoom event d s) = editor_inv s"
  by (rule editor_inv_cong) (simp_all add: handleMouseDown_def Let_def split: option.splits)

lemma inv_handleMouseMove: "editor_inv (handleMouseMove zoom event s) = editor_inv s"
  by (rule editor_inv_cong)
     (simp_all add: handleMouseMove_def Let_def updateAnnotation_ids updateAnnotation_extracted
        no_updates_def split: option.splits)

lemma inv_handleMouseUp: "editor_inv (handleMouseUp s) = editor_inv s"
  by (rule editor_inv_cong) (simp_all add: handleMouseUp_def)

lemma extract_item_id: "extract_item vp ix = Some t \<Longrightarrow> \<not> clock_like (ext_id t)"
  by (auto simp: extract_item_def Let_def clock_like_def split: option.splits if_splits)

lemma demo_ids:
  "list_all (\<lambda>t. \<not> clock_like (ext_id t)) demoTexts"
  "list_all (\<lambda>t. \<not> clock_like (ext_id t)) errorDemoTexts"
  "list_all (\<lambda>t. \<not> clock_like (ext_id t)) timeoutDemoTexts"
  "list_all (\<lambda>t. \<not> clock_like (ext_id t)) testTexts"
  by (simp_all add: demoTexts_def errorDemoTexts_def timeoutDemoTexts_def testTexts_def
      demo_text_def clock_like_def)

lemma map_filter_all:
  "(\<And>x y. f x = Some y \<Longrightarrow> P y) \<Longrightarrow> list_all P (List.map_filter f xs)"
  by (induction xs) (auto split: option.splits)

lemma extract_try_ids:
  assumes "extractTextFromPDF_try env file = Inr texts"
  shows "list_all (\<lambda>t. \<not> clock_like (ext_id t)) texts"
proof -
  from assms obtain vp items where
    "texts = (if List.map_filter (extract_item vp) (enumerate 0 items) \<noteq> []
              then List.map_filter (extract_item vp) (enumerate 0 items) else demoTexts)"
    by (auto simp: extractTextFromPDF_try_def Let_def split: sum.splits)
  moreover have "list_all (\<lambda>t. \<not> clock_like (ext_id t))
                   (List.map_filter (extract_item vp) (enumerate 0 items))"
    by (rule map_filter_all) (rule extract_item_id)
  ultimately show ?thesis
    by (simp add: demo_ids)
qed

lemma inv_extractTextFromPDF:
  "editor_inv s \<Longrightarrow> extractTextFromPDF env file s = Inr s' \<Longrightarrow> editor_inv s'"
  by (auto simp: extractTextFromPDF_def Let_def editor_inv_def demo_ids extract_try_ids split: sum.splits)

lemma inv_fields:
  "editor_inv (s\<lparr>selectedAnnotation := a\<rparr>) = editor_inv s"
  "editor_inv (s\<lparr>editMode := m\<rparr>) = editor_inv s"
  "editor_inv (s\<lparr>pdfScale := p\<rparr>) = editor_inv s"
  "editor_inv (s\<lparr>loading := b\<rparr>) = editor_inv s"
  by (simp_all add: editor_inv_def)

lemma inv_set_texts:
  "editor_inv s \<Longrightarrow> list_all (\<lambda>t. \<not> clock_like (ext_id t)) ts \<Longrightarrow>
     editor_inv (s\<lparr>loading := b, extractedTexts := ts\<rparr>)"
  by (simp add: editor_inv_def)

lemma inv_step:
  assumes inv: "editor_inv s"
  shows "editor_inv (fst (editor_step env file zoom ev s))"
proof (cases ev)
  case (PDFClick event now)
  with inv show ?thesis by (simp add: editor_step_def inv_handlePDFClick)
next
  case (AnnotationMouseDown event annotationId)
  with inv show ?thesis by (simp add: editor_step_def inv_handleMouseDown)
next
  case (AnnotationClick annotationId)
  with inv show ?thesis by (simp add: editor_step_def inv_fields)
next
  case (PDFMouseMove event)
  with inv show ?thesis by (simp add: editor_step_def inv_handleMouseMove)
next
  case PDFMouseUp
  with inv show ?thesis by (simp add: editor_step_def inv_handleMouseUp)
next
  case (TextFieldChange annotationId v)
  with inv show ?thesis by (simp add: editor_step_def inv_updateAnnotation no_updates_def)
next
  case (TextFieldBlur annotationId)
  with inv show ?thesis by (simp add: editor_step_def inv_updateAnnotation no_updates_def)
next
  case (TextFieldEnter annotationId)
  with inv show ?thesis by (simp add: editor_step_def inv_updateAnnotation no_updates_def)
next
  case (AnnotationDoubleClick annotationId)
  with inv show ?thesis by (simp add: editor_step_def inv_updateAnnotation no_updates_def)
next
  case EditButtonClick
  with inv show ?thesis
    by (simp add: editor_step_def inv_updateAnnotation no_updates_def split: option.splits)
next
  case DeleteButtonClick
  with inv show ?thesis
    by (simp add: editor_step_def inv_deleteAnnotation split: option.splits)
next
  case (EditListClick annotationId)
  with inv show ?thesis by (simp add: editor_step_def inv_fields)
next
  case (EditModeChange newMode)
  with inv show ?thesis by (simp add: editor_step_def inv_fields split: option.splits)
next
  case ScaleOutClick
  with inv show ?thesis by (simp add: editor_step_def inv_fields)
next
  case ScaleInClick
  with inv show ?thesis by (simp add: editor_step_def inv_fields)
next
  case ExtractionStart
  with inv show ?thesis by (simp add: editor_step_def inv_fields)
next
  case ExtractionDone
  with inv inv_extractTextFromPDF [of s env "file"] show ?thesis
    by (auto simp: editor_step_def split: sum.splits)
next
  case ExtractionTimeout
  with inv show ?thesis by (simp add: editor_step_def inv_set_texts demo_ids)
next
  case ShowDemoTextsClick
  with inv show ?thesis by (simp add: editor_step_def inv_set_texts demo_ids)
next
  case SaveClick
  with inv show ?thesis by (simp add: editor_step_def split: sum.splits)
qed

lemma inv_run: "editor_inv s \<Longrightarrow> editor_inv (editor_run env file evs s)"
  by (induction evs arbitrary: s) (simp_all add: inv_step)

lemma inv_init: "editor_inv editor_init"
  by (simp add: editor_inv_def editor_init_def)

lemma at_most_one_of_distinct:
  "distinct (filter P (map f xs)) \<Longrightarrow> P k \<Longrightarrow> length (filter (\<lambda>x. f x = k) xs) \<le> 1"
proof (induction xs)
  case Nil
  then show ?case by simp
next
  case (Cons a xs)
  show ?case
  proof (cases "f a = k")
    case True
    with Cons.prems have "k \<notin> set (filter P (map f xs))" by simp
    with Cons.prems(2) have "\<forall>x \<in> set xs. f x \<noteq> k" by auto
    then have "filter (\<lambda>x. f x = k) xs = []" by (simp add: filter_empty_conv)
    with True show ?thesis by simp
  next
    case False
    with Cons show ?thesis by (simp split: if_splits)
  qed
qed

lemma inv_at_most_one:
  assumes "editor_inv s" and "t \<in> set (extractedTexts s)"
  shows "length (filter (\<lambda>ann. ann_id ann = ext_id t) (textAnnotations s)) \<le> 1"
proof -
  from assms have "\<not> clock_like (ext_id t)"
    by (simp add: editor_inv_def list_all_iff)
  moreover from assms(1) have "distinct (filter (\<lambda>i. \<not> clock_like i) (map ann_id (textAnnotations s)))"
    by (simp add: editor_inv_def)
  ultimately show ?thesis
    by (rule at_most_one_of_distinct [rotated])
qed

lemma replace_run:
  "editor_run sample_env sample_pdf replace_events editor_init =
     editor_init\<lparr>textAnnotations :=
                   [\<lparr>ann_id = ''demo_1'', ann_x = Num 100, ann_y = Num 100,
                     ann_text = ''Demo Text 1 (Click me!)'', ann_fontSize = Num 14,
                     isEditing = False, ann_type = Existing,
                     originalText = Some ''Demo Text 1 (Click me!)''\<rparr>],
                 extractedTexts := demoTexts, selectedAnnotation := Some ''demo_1'',
                 editMode := Replace\<rparr>"
  apply (simp add: replace_events_def editor_step_def)
  apply (simp add: extractTextFromPDF_def extractTextFromPDF_try_def sample_env_def sample_pdf_def Let_def)
  apply (simp add: handlePDFClick_def editor_init_def str_truthy_def click_coords_def
      fragment_click_def outside_pdf_area_def js_eval Let_def)
  apply (simp add: demoTexts_def demo_text_def isInBounds_def js_eval Let_def editing_def
      updateAnnotation_def spread_def or_keep_def no_updates_def)
  done

lemma replaced_state_eq:
  "replaced_state =
     editor_init\<lparr>textAnnotations :=
                   [\<lparr>ann_id = ''demo_1'', ann_x = Num 100, ann_y = Num 100,
                     ann_text = ''Demo Text 1 (Click me!)'', ann_fontSize = Num 14,
                     isEditing = False, ann_type = Existing,
                     originalText = Some ''Demo Text 1 (Click me!)''\<rparr>],
                 extractedTexts := demoTexts, selectedAnnotation := Some ''demo_1'',
                 editMode := Replace\<rparr>"
  by (simp add: replaced_state_def replace_run)

subsection \<open>The editor: annotations\<close>

text \<open>
  C3. The claim is that annotation ids stay pairwise distinct. An add-mode click takes
  \<^verbatim>\<open>Date.now().toString()\<close> as the id of the new annotation, so two add-mode clicks on
  the page that read the same clock value give two annotations with one id: here both
  clicks read 1000.
\<close>

theorem duplicate_annotation_ids:
  "map ann_id (textAnnotations (editor_run sample_env sample_pdf
      [(Num 1, PDFClick sample_click 1000), (Num 1, PDFClick fragment_click 1000)] editor_init))
     = [''1000'', ''1000''] \<and>
   \<not> distinct (map ann_id (textAnnotations (editor_run sample_env sample_pdf
      [(Num 1, PDFClick sample_click 1000), (Num 1, PDFClick fragment_click 1000)] editor_init)))"
  by (simp add: editor_step_def handlePDFClick_def editor_init_def str_truthy_def click_coords_def
      sample_click_def fragment_click_def outside_pdf_area_def js_eval Let_def toString_eval)

text \<open>
  Clock collisions are the only way to a repeated id: in every run of the editor from
  its initial state in which the clicks on the page read pairwise distinct clock
  values, the annotation ids are pairwise distinct.
\<close>

lemma digit_char_inj: "a < 10 \<Longrightarrow> b < 10 \<Longrightarrow> digit_char a = digit_char b \<Longrightarrow> a = b"
proof -
  assume a: "a < 10" and b: "b < 10" and eq: "digit_char a = digit_char b"
  have d: "distinct ''0123456789''" by simp
  from a b eq have "''0123456789'' ! a = ''0123456789'' ! b"
    by (simp add: digit_char_def)
  with d a b show "a = b"
    by (simp add: nth_eq_iff_index_eq)
qed

lemma digits_length: "length (digits n) = 1 \<longleftrightarrow> n < 10"
  using digits_hd [of "n div 10"] by (simp add: digits.simps [of n])

lemma digits_inj: "digits m = digits n \<Longrightarrow> m = n"
proof (induction m arbitrary: n rule: digits.induct)
  case (1 m)
  show ?case
  proof (cases "m < 10")
    case True
    with 1(2) digits_length [of m] digits_length [of n] have n: "n < 10" by simp
    with True 1(2) have "digit_char m = digit_char n"
      by (simp add: digits.simps [of m] digits.simps [of n])
    with True n show ?thesis by (rule digit_char_inj)
  next
    case False
    with 1(2) digits_length [of m] digits_length [of n] have n: "\<not> n < 10" by simp
    with False 1(2) have eq: "digits (m div 10) = digits (n div 10)"
        "digit_char (m mod 10) = digit_char (n mod 10)"
      by (simp_all add: digits.simps [of m] digits.simps [of n])
    from 1(1) [OF False eq(1)] have "m div 10 = n div 10" .
    moreover from eq(2) have "m mod 10 = n mod 10"
      by (intro digit_char_inj) simp_all
    ultimately show ?thesis
      by (metis div_mult_mod_eq)
  qed
qed

lemma digits_no_minus: "hd (digits n) \<noteq> CHR ''-''"
  using digits_hd [of n] by auto

lemma toString_inj: "toString a = toString b \<Longrightarrow> a = b"
proof -
  assume eq: "toString a = toString b"
  have neq: "CHR ''-'' # digits k \<noteq> digits l" for k l
    using digits_no_minus [of l] by (metis list.sel(1))
  show "a = b"
  proof (cases "a < 0"; cases "b < 0")
    assume "a < 0" "b < 0"
    with eq have "nat (- a) = nat (- b)" by (simp add: toString_def digits_inj)
    with \<open>a < 0\<close> \<open>b < 0\<close> show ?thesis by simp
  next
    assume "a < 0" "\<not> b < 0"
    with eq neq show ?thesis by (simp add: toString_def)
  next
    assume "\<not> a < 0" "b < 0"
    with eq neq [of "nat (- b)" "nat a"] show ?thesis by (simp add: toString_def)
  next
    assume "\<not> a < 0" "\<not> b < 0"
    with eq have "nat a = nat b" by (simp add: toString_def digits_inj)
    with \<open>\<not> a < 0\<close> \<open>\<not> b < 0\<close> show ?thesis by simp
  qed
qed

lemma ids_inv_cong:
  "map ann_id (textAnnotations s') = map ann_id (textAnnotations s) \<Longrightarrow>
   extractedTexts s' = extractedTexts s \<Longrightarrow> ids_inv used s' = ids_inv used s"
  by (simp add: ids_inv_def)

lemma ids_inv_more: "ids_inv used s \<Longrightarrow> ids_inv (now # used) s"
  by (auto simp: ids_inv_def list_all_iff)

lemma ids_inv_fields:
  "ids_inv used (s\<lparr>selectedAnnotation := a\<rparr>) = ids_inv used s"
  "ids_inv used (s\<lparr>editMode := m\<rparr>) = ids_inv used s"
  "ids_inv used (s\<lparr>pdfScale := p\<rparr>) = ids_inv used s"
  "ids_inv used (s\<lparr>loading := b\<rparr>) = ids_inv used s"
  by (simp_all add: ids_inv_def)

lemma ids_inv_set_texts:
  "ids_inv used s \<Longrightarrow> list_all (\<lambda>t. \<not> clock_like (ext_id t)) ts \<Longrightarrow>
     ids_inv used (s\<lparr>loading := b, extractedTexts := ts\<rparr>)"
  by (simp add: ids_inv_def)

lemma ids_inv_updateAnnotation:
  "upd_id updates = None \<Longrightarrow> ids_inv used (updateAnnotation d updates s) = ids_inv used s"
  by (rule ids_inv_cong) (simp_all add: updateAnnotation_ids updateAnnotation_extracted)

lemma ids_inv_deleteAnnotation: "ids_inv used s \<Longrightarrow> ids_inv used (deleteAnnotation d s)"
  by (auto simp: ids_inv_def deleteAnnotation_def distinct_map_filter list_all_iff)

lemma ids_inv_append:
  assumes "ids_inv used s" and "ann_id a \<notin> set (map ann_id (textAnnotations s))"
    and "clock_like (ann_id a) \<longrightarrow> ann_id a \<in> set (map toString used)"
  shows "ids_inv used (s\<lparr>textAnnotations := textAnnotations s @ [a], selectedAnnotation := sel\<rparr>)"
  using assms by (auto simp: ids_inv_def)

lemma ids_inv_handlePDFClick:
  assumes inv: "ids_inv used s" and fresh: "now \<notin> set used"
  shows "ids_inv (now # used) (handlePDFClick zoom event now s)"
proof -
  from inv have inv': "ids_inv (now # used) s" by (rule ids_inv_more)
  show ?thesis
  proof (cases "str_truthy (dragging s) \<or> outside_pdf_area (click_coords zoom event s)")
    case True
    with inv' show ?thesis by (auto simp: handlePDFClick_def Let_def)
  next
    case False
    note live = this
    show ?thesis
    proof (cases "editMode s")
      case Add
      have "toString now \<notin> set (map ann_id (textAnnotations s))"
      proof
        assume "toString now \<in> set (map ann_id (textAnnotations s))"
        with inv clock_like_toString [of now] have "toString now \<in> set (map toString used)"
          by (auto simp: ids_inv_def list_all_iff)
        with fresh show False by (auto dest: toString_inj)
      qed
      with ids_inv_append [OF inv', of _ "Some (toString now)"] live Add
      show ?thesis by (simp add: handlePDFClick_def Let_def)
    next
      case Replace
      show ?thesis
      proof (cases "find (isInBounds (click_coords zoom event s)) (extractedTexts s)")
        case None
        with live Replace inv' show ?thesis by (simp add: handlePDFClick_def Let_def)
      next
        case (Some clickedText)
        then have "clickedText \<in> set (extractedTexts s)"
          by (auto simp: find_Some_iff)
        with inv have nc: "\<not> clock_like (ext_id clickedText)"
          by (simp add: ids_inv_def list_all_iff)
        show ?thesis
        proof (cases "find (\<lambda>ann. ann_id ann = ext_id clickedText) (textAnnotations s)")
          case None
          from find_None_ids [OF None] nc
               ids_inv_append [OF inv', of _ "Some (ext_id clickedText)"]
               live Replace Some None
          show ?thesis by (simp add: handlePDFClick_def Let_def)
        next
          case (Some existingAnnotation)
          have "ids_inv (now # used) ((updateAnnotation (ann_id existingAnnotation)
                  (no_updates\<lparr>upd_isEditing := Some True\<rparr>) s)
                  \<lparr>selectedAnnotation := Some (ann_id existingAnnotation)\<rparr>)
                = ids_inv (now # used) s"
            by (rule ids_inv_cong)
               (simp_all add: updateAnnotation_ids updateAnnotation_extracted no_updates_def)
          with inv' live Replace \<open>find (isInBounds (click_coords zoom event s)) (extractedTexts s)
               = Some clickedText\<close> Some
          show ?thesis by (simp add: handlePDFClick_def Let_def)
        qed
      qed
    qed
  qed
qed

lemma ids_inv_extractTextFromPDF:
  "ids_inv used s \<Longrightarrow> extractTextFromPDF env file s = Inr s' \<Longrightarrow> ids_inv used s'"
  by (auto simp: extractTextFromPDF_def Let_def ids_inv_def demo_ids extract_try_ids split: sum.splits)

lemma ids_inv_step:
  assumes inv: "ids_inv used s" and fresh: "set (click_time ev) \<inter> set used = {}"
  shows "ids_inv (click_time ev @ used) (fst (editor_step env file zoom ev s))"
proof (cases ev)
  case (PDFClick event now)
  with inv fresh show ?thesis by (simp add: editor_step_def ids_inv_handlePDFClick)
next
  case (AnnotationMouseDown event annotationId)
  have "ids_inv used (handleMouseDown zoom event annotationId s) = ids_inv used s"
    by (rule ids_inv_cong) (simp_all add: handleMouseDown_def Let_def split: option.splits)
  with inv AnnotationMouseDown show ?thesis by (simp add: editor_step_def)
next
  case (AnnotationClick annotationId)
  with inv show ?thesis by (simp add: editor_step_def ids_inv_fields)
next
  case (PDFMouseMove event)
  have "ids_inv used (handleMouseMove zoom event s) = ids_inv used s"
    by (rule ids_inv_cong)
       (simp_all add: handleMouseMove_def Let_def updateAnnotation_ids updateAnnotation_extracted
          no_updates_def split: option.splits)
  with inv PDFMouseMove show ?thesis by (simp add: editor_step_def)
next
  case PDFMouseUp
  have "ids_inv used (handleMouseUp s) = ids_inv used s"
    by (rule ids_inv_cong) (simp_all add: handleMouseUp_def)
  with inv PDFMouseUp show ?thesis by (simp add: editor_step_def)
next
  case (TextFieldChange annotationId v)
  with inv show ?thesis by (simp add: editor_step_def ids_inv_updateAnnotation no_updates_def)
next
  case (TextFieldBlur annotationId)
  with inv show ?thesis by (simp add: editor_step_def ids_inv_updateAnnotation no_updates_def)
next
  case (TextFieldEnter annotationId)
  with inv show ?thesis by (simp add: editor_step_def ids_inv_updateAnnotation no_updates_def)
next
  case (AnnotationDoubleClick annotationId)
  with inv show ?thesis by (simp add: editor_step_def ids_inv_updateAnnotation no_updates_def)
next
  case EditButtonClick
  with inv show ?thesis
    by (simp add: editor_step_def ids_inv_updateAnnotation no_updates_def split: option.splits)
next
  case DeleteButtonClick
  with inv show ?thesis
    by (simp add: editor_step_def ids_inv_deleteAnnotation split: option.splits)
next
  case (EditListClick annotationId)
  with inv show ?thesis by (simp add: editor_step_def ids_inv_fields)
next
  case (EditModeChange newMode)
  with inv show ?thesis by (simp add: editor_step_def ids_inv_fields split: option.splits)
next
  case ScaleOutClick
  with inv show ?thesis by (simp add: editor_step_def ids_inv_fields)
next
  case ScaleInClick
  with inv show ?thesis by (simp add: editor_step_def ids_inv_fields)
next
  case ExtractionStart
  with inv show ?thesis by (simp add: editor_step_def ids_inv_fields)
next
  case ExtractionDone
  with inv ids_inv_extractTextFromPDF [of used s env "file"] show ?thesis
    by (auto simp: editor_step_def split: sum.splits)
next
  case ExtractionTimeout
  with inv show ?thesis by (simp add: editor_step_def ids_inv_set_texts demo_ids)
next
  case ShowDemoTextsClick
  with inv show ?thesis by (simp add: editor_step_def ids_inv_set_texts demo_ids)
next
  case SaveClick
  with inv show ?thesis by (simp add: editor_step_def split: sum.splits)
qed

lemma ids_inv_run:
  "ids_inv used s \<Longrightarrow> distinct (click_times evs) \<Longrightarrow> set (click_times evs) \<inter> set used = {} \<Longrightarrow>
     \<exists>used'. ids_inv used' (editor_run env file evs s)"
proof (induction evs arbitrary: s used)
  case Nil
  then show ?case by auto
next
  case (Cons zev evs)
  from Cons.prems have fresh: "set (click_time (snd zev)) \<inter> set used = {}"
    by (auto simp: click_times_def)
  from ids_inv_step [OF Cons.prems(1) fresh]
  have step: "ids_inv (click_time (snd zev) @ used)
                (fst (editor_step env file (fst zev) (snd zev) s))" .
  from Cons.prems have "distinct (click_times evs)"
    and "set (click_times evs) \<inter> set (click_time (snd zev) @ used) = {}"
    by (auto simp: click_times_def)
  from Cons.IH [OF step this] show ?case by simp
qed

lemma annotation_ids_distinct_for_distinct_clock:
  assumes "distinct (click_times evs)"
  shows "distinct (map ann_id (textAnnotations (editor_run env file evs editor_init)))"
proof -
  have "ids_inv [] editor_init" by (simp add: ids_inv_def editor_init_def)
  from ids_inv_run [OF this assms] show ?thesis by (auto simp: ids_inv_def)
qed

text \<open>
  C8. From an empty annotation list, an add-mode click on the page (no drag in
  progress) leaves exactly one annotation, whose id is the printed clock reading and
  which is selected; deleting that id, directly or with the delete button, leaves the
  list empty again.
\<close>

theorem add_then_delete_is_empty:
  assumes "textAnnotations s = []" "\<not> str_truthy (dragging s)" "editMode s = Add"
    "\<not> outside_pdf_area (click_coords zoom event s)"
  shows "\<exists>ann. textAnnotations (handlePDFClick zoom event now s) = [ann] \<and>
           ann_id ann = toString now \<and>
           selectedAnnotation (handlePDFClick zoom event now s) = Some (ann_id ann) \<and>
           textAnnotations (deleteAnnotation (ann_id ann) (handlePDFClick zoom event now s)) = [] \<and>
           textAnnotations (editor_run env file [(zoom, PDFClick event now), (zoom', DeleteButtonClick)] s) = []"
  using assms toString_nonempty [of now]
  by (simp add: handlePDFClick_def deleteAnnotation_def editor_step_def Let_def)

theorem add_then_delete_is_empty_witness:
  "textAnnotations editor_init = [] \<and> \<not> str_truthy (dragging editor_init) \<and>
   editMode editor_init = Add \<and>
   \<not> outside_pdf_area (click_coords (Num 1) sample_click editor_init) \<and>
   map ann_id (textAnnotations (handlePDFClick (Num 1) sample_click 1000 editor_init)) = [''1000''] \<and>
   textAnnotations (deleteAnnotation ''1000'' (handlePDFClick (Num 1) sample_click 1000 editor_init)) = []"
proof -
  have h1: "textAnnotations editor_init = []" by (simp add: editor_init_def)
  have h2: "\<not> str_truthy (dragging editor_init)" by (simp add: editor_init_def str_truthy_def)
  have h3: "editMode editor_init = Add" by (simp add: editor_init_def)
  have h4: "\<not> outside_pdf_area (click_coords (Num 1) sample_click editor_init)"
    by (simp add: click_coords_def sample_click_def editor_init_def outside_pdf_area_def js_eval)
  have n: "toString 1000 = ''1000''" by (simp add: toString_eval)
  from add_then_delete_is_empty [OF h1 h2 h3 h4, of 1000 sample_env sample_pdf "Num 1"]
  obtain ann where
    "textAnnotations (handlePDFClick (Num 1) sample_click 1000 editor_init) = [ann]"
    "ann_id ann = toString 1000"
    "textAnnotations (deleteAnnotation (ann_id ann) (handlePDFClick (Num 1) sample_click 1000 editor_init)) = []"
    by blast
  with h1 h2 h3 h4 n show ?thesis by simp
qed

text \<open>
  C9. The claim is that a mouse move during a drag leaves the dragged annotation on the
  page, whatever the zoom. At zoom Infinity the page coordinates are
  Infinity / Infinity, which is NaN; \<^verbatim>\<open>Math.max(0, Math.min(800, x))\<close> passes NaN through,
  and the annotation is stored at x = NaN and y = NaN. The same happens at the finite
  zoom of about 1.035e308 with scale 2, where \<^verbatim>\<open>800 * zoom\<close> and \<^verbatim>\<open>zoom * pdfScale\<close>
  overflow.
\<close>

theorem drag_escapes_clamp:
  "dragging (editor_run sample_env sample_pdf infinite_zoom_drag editor_init) = Some ''1000'' \<and>
   map ann_id (textAnnotations (editor_run sample_env sample_pdf infinite_zoom_drag editor_init))
     = [''1000''] \<and>
   map ann_x (textAnnotations (editor_run sample_env sample_pdf infinite_zoom_drag editor_init))
     = [NaN] \<and>
   map ann_y (textAnnotations (editor_run sample_env sample_pdf infinite_zoom_drag editor_init))
     = [NaN] \<and>
   \<not> list_all in_page
       (textAnnotations (editor_run sample_env sample_pdf infinite_zoom_drag editor_init)) \<and>
   pdfScale (editor_run sample_env sample_pdf huge_zoom_drag editor_init) = Num 2 \<and>
   map ann_x (textAnnotations (editor_run sample_env sample_pdf huge_zoom_drag editor_init))
     = [NaN] \<and>
   \<not> list_all in_page
       (textAnnotations (editor_run sample_env sample_pdf huge_zoom_drag editor_init))"
proof -
  have placed: "fst (editor_step sample_env sample_pdf (Num 1) (PDFClick sample_click 1000) editor_init)
      = editor_init\<lparr>textAnnotations := [sample_annotation], selectedAnnotation := Some ''1000''\<rparr>"
    by (simp add: editor_step_def handlePDFClick_def editor_init_def str_truthy_def
        click_coords_def sample_click_def outside_pdf_area_def js_eval Let_def toString_eval
        sample_annotation_def)
  have inf: "editor_run sample_env sample_pdf infinite_zoom_drag editor_init
      = editor_init\<lparr>textAnnotations := [sample_annotation\<lparr>ann_x := NaN, ann_y := NaN\<rparr>],
                     selectedAnnotation := Some ''1000'', dragging := Some ''1000'',
                     dragOffset := (NegInf, NegInf)\<rparr>"
    by (simp add: infinite_zoom_drag_def placed)
       (simp add: editor_step_def rendered_def handleMouseDown_def handleMouseMove_def
          drag_coords_def updateAnnotation_def spread_def or_keep_def no_updates_def
          sample_annotation_def editor_init_def grab_def far_move_def js_eval Let_def)
  let ?placed = "editor_init\<lparr>textAnnotations := [sample_annotation], selectedAnnotation := Some ''1000''\<rparr>"
  let ?drag = "[(huge_zoom, AnnotationMouseDown grab ''1000''), (huge_zoom, PDFMouseMove far_move)]"
  have scaled: "editor_run sample_env sample_pdf (replicate 12 (Num 1, ScaleInClick) @ rest) s
      = editor_run sample_env sample_pdf rest (s\<lparr>pdfScale := Num 2\<rparr>)"
    if "pdfScale s = Num 0.8" for rest s
    using that by (simp add: numeral_eq_Suc editor_step_def js_eval)
  have "editor_run sample_env sample_pdf huge_zoom_drag editor_init
      = editor_run sample_env sample_pdf (replicate 12 (Num 1, ScaleInClick) @ ?drag) ?placed"
    by (simp add: huge_zoom_drag_def placed)
  also have "\<dots> = editor_run sample_env sample_pdf ?drag (?placed\<lparr>pdfScale := Num 2\<rparr>)"
    by (rule scaled) (simp add: editor_init_def)
  also have "\<dots> = editor_init\<lparr>textAnnotations := [sample_annotation\<lparr>ann_x := NaN, ann_y := NaN\<rparr>],
                     selectedAnnotation := Some ''1000'', dragging := Some ''1000'',
                     dragOffset := (NegInf, NegInf), pdfScale := Num 2\<rparr>"
    by (simp add: editor_step_def rendered_def handleMouseDown_def handleMouseMove_def
          drag_coords_def updateAnnotation_def spread_def or_keep_def no_updates_def
          sample_annotation_def grab_def far_move_def huge_zoom_def editor_init_def js_eval Let_def)
  finally have huge: "editor_run sample_env sample_pdf huge_zoom_drag editor_init
      = editor_init\<lparr>textAnnotations := [sample_annotation\<lparr>ann_x := NaN, ann_y := NaN\<rparr>],
                     selectedAnnotation := Some ''1000'', dragging := Some ''1000'',
                     dragOffset := (NegInf, NegInf), pdfScale := Num 2\<rparr>" .
  show ?thesis
    by (simp add: inf huge) (simp add: sample_annotation_def editor_init_def in_page_def js_eval)
qed

text \<open>
  NaN is the only way off the page: whenever the page coordinates computed from the
  event are not NaN, the move leaves every annotation with the dragged id at an x
  between 0 and 800 and a y between 0 and 1000. At zoom 1, for example, a pointer far
  to the right of and above the page puts the annotation at (800, 0). And one more
  click on zoom-in at a zoom of 1.5e308 makes the shell's zoom Infinity.
\<close>

lemma drag_clamped_unless_NaN:
  assumes drag: "dragging s = Some d" "d \<noteq> []"
    and numbers: "fst (drag_coords zoom event s) \<noteq> NaN" "snd (drag_coords zoom event s) \<noteq> NaN"
    and mem: "ann' \<in> set (textAnnotations (handleMouseMove zoom event s))"
    and id: "ann_id ann' = d"
  shows "in_page ann'"
proof -
  let ?x = "fst (drag_coords zoom event s)" and ?y = "snd (drag_coords zoom event s)"
  let ?cx = "Math_max (Num 0) (Math_min (Num 800) ?x)"
  let ?cy = "Math_max (Num 0) (Math_min (Num 1000) ?y)"
  let ?u = "no_updates\<lparr>upd_x := Some ?cx, upd_y := Some ?cy\<rparr>"
  from drag have move: "handleMouseMove zoom event s = updateAnnotation d ?u s"
    by (simp add: handleMouseMove_def Let_def)
  have "upd_id ?u = None" by (simp add: no_updates_def)
  from updateAnnotation_members [OF this mem [unfolded move] id]
  obtain ann where "ann' = spread ann ?u" by blast
  then have "ann_x ann' = ?cx" "ann_y ann' = ?cy"
    by (simp_all add: spread_xy)
  with clamp_in_range [of 800 ?x] clamp_in_range [of 1000 ?y] numbers show "in_page ann'"
    by (simp add: in_page_def)
qed

lemma drag_clamps_at_zoom_1:
  "map ann_x (textAnnotations (handleMouseMove (Num 1) far_move drag_state)) = [Num 800] \<and>
   map ann_y (textAnnotations (handleMouseMove (Num 1) far_move drag_state)) = [Num 0] \<and>
   list_all in_page (textAnnotations (handleMouseMove (Num 1) far_move drag_state))"
  by (simp add: handleMouseMove_def drag_state_def updateAnnotation_def Let_def spread_def
      or_keep_def no_updates_def sample_annotation_def drag_coords_def far_move_def
      editor_init_def in_page_def js_eval)

lemma zoomIn_overflows:
  "app_zoom (zoomIn (app_init\<lparr>app_zoom := Num (15 * 10 ^ 307)\<rparr>)) = PosInf \<and>
   app_zoom (zoomIn (app_init\<lparr>app_zoom := PosInf\<rparr>)) = PosInf"
  by (simp add: zoomIn_def js_eval)

text \<open>
  C10. In replace mode, a click on the page that hits a fragment whose id an annotation
  already has adds nothing: the list keeps its length, the annotations with that id are
  marked as editing and nothing else changes in the list, and that id is selected.
  And after every run of the editor from its initial state, each extracted fragment has
  at most one annotation with its id.
\<close>

theorem replace_click_on_annotated_fragment:
  "(editMode s = Replace \<longrightarrow> \<not> str_truthy (dragging s) \<longrightarrow>
    \<not> outside_pdf_area (click_coords zoom event s) \<longrightarrow>
    find (isInBounds (click_coords zoom event s)) (extractedTexts s) = Some clickedText \<longrightarrow>
    ext_id clickedText \<in> set (map ann_id (textAnnotations s)) \<longrightarrow>
      length (textAnnotations (handlePDFClick zoom event now s)) = length (textAnnotations s) \<and>
      textAnnotations (handlePDFClick zoom event now s) =
        map (\<lambda>ann. if ann_id ann = ext_id clickedText then ann\<lparr>isEditing := True\<rparr> else ann)
          (textAnnotations s) \<and>
      selectedAnnotation (handlePDFClick zoom event now s) = Some (ext_id clickedText)) \<and>
   (\<forall>t \<in> set (extractedTexts (editor_run env file evs editor_init)).
      length (filter (\<lambda>ann. ann_id ann = ext_id t)
                (textAnnotations (editor_run env file evs editor_init))) \<le> 1)"
proof (intro conjI impI ballI)
  assume a: "editMode s = Replace" "\<not> str_truthy (dragging s)"
    "\<not> outside_pdf_area (click_coords zoom event s)"
    "find (isInBounds (click_coords zoom event s)) (extractedTexts s) = Some clickedText"
    "ext_id clickedText \<in> set (map ann_id (textAnnotations s))"
  from find_id_Some [OF a(5)] obtain existing where
    ex: "find (\<lambda>ann. ann_id ann = ext_id clickedText) (textAnnotations s) = Some existing"
        "ann_id existing = ext_id clickedText"
    by blast
  from a ex have click: "handlePDFClick zoom event now s =
      (updateAnnotation (ext_id clickedText) (no_updates\<lparr>upd_isEditing := Some True\<rparr>) s)
        \<lparr>selectedAnnotation := Some (ext_id clickedText)\<rparr>"
    by (simp add: handlePDFClick_def Let_def)
  show "textAnnotations (handlePDFClick zoom event now s) =
        map (\<lambda>ann. if ann_id ann = ext_id clickedText then ann\<lparr>isEditing := True\<rparr> else ann)
          (textAnnotations s)"
    by (simp add: click updateAnnotation_def spread_isEditing)
  then show "length (textAnnotations (handlePDFClick zoom event now s)) = length (textAnnotations s)"
    by simp
  show "selectedAnnotation (handlePDFClick zoom event now s) = Some (ext_id clickedText)"
    by (simp add: click)
next
  fix t
  assume "t \<in> set (extractedTexts (editor_run env file evs editor_init))"
  with inv_run [OF inv_init, of env "file" evs]
  show "length (filter (\<lambda>ann. ann_id ann = ext_id t)
                (textAnnotations (editor_run env file evs editor_init))) \<le> 1"
    by (rule inv_at_most_one)
qed

theorem replace_click_on_annotated_fragment_witness:
  "editMode replaced_state = Replace \<and> \<not> str_truthy (dragging replaced_state) \<and>
   \<not> outside_pdf_area (click_coords (Num 1) fragment_click replaced_state) \<and>
   find (isInBounds (click_coords (Num 1) fragment_click replaced_state)) (extractedTexts replaced_state)
     = Some (hd demoTexts) \<and>
   ext_id (hd demoTexts) \<in> set (map ann_id (textAnnotations replaced_state)) \<and>
   length (textAnnotations (handlePDFClick (Num 1) fragment_click 2000 replaced_state)) = 1 \<and>
   map isEditing (textAnnotations replaced_state) = [False] \<and>
   map isEditing (textAnnotations (handlePDFClick (Num 1) fragment_click 2000 replaced_state)) = [True] \<and>
   hd demoTexts \<in> set (extractedTexts replaced_state) \<and>
   length (filter (\<lambda>ann. ann_id ann = ext_id (hd demoTexts)) (textAnnotations replaced_state)) \<le> 1"
proof -
  have coords: "click_coords (Num 1) fragment_click replaced_state = (Num 110, Num 110)"
    by (simp add: replaced_state_eq click_coords_def fragment_click_def editor_init_def js_eval)
  have h1: "editMode replaced_state = Replace" by (simp add: replaced_state_eq)
  have h2: "\<not> str_truthy (dragging replaced_state)"
    by (simp add: replaced_state_eq editor_init_def str_truthy_def)
  have h3: "\<not> outside_pdf_area (click_coords (Num 1) fragment_click replaced_state)"
    by (simp add: coords outside_pdf_area_def js_eval)
  have h4: "find (isInBounds (click_coords (Num 1) fragment_click replaced_state))
              (extractedTexts replaced_state) = Some (hd demoTexts)"
    by (simp only: coords) (simp add: replaced_state_eq demoTexts_def demo_text_def isInBounds_def js_eval)
  have h5: "ext_id (hd demoTexts) \<in> set (map ann_id (textAnnotations replaced_state))"
    by (simp add: replaced_state_eq demoTexts_def demo_text_def)
  have h6: "hd demoTexts \<in> set (extractedTexts replaced_state)"
    by (simp add: replaced_state_eq demoTexts_def)
  have before: "map isEditing (textAnnotations replaced_state) = [False]"
    by (simp add: replaced_state_eq)
  have len: "length (textAnnotations replaced_state) = 1"
    by (simp add: replaced_state_eq)
  note inst = replace_click_on_annotated_fragment
      [of replaced_state "Num 1" fragment_click "hd demoTexts" 2000 sample_env sample_pdf
          replace_events, folded replaced_state_def]
  from inst h1 h2 h3 h4 h5
  have a: "length (textAnnotations (handlePDFClick (Num 1) fragment_click 2000 replaced_state))
             = length (textAnnotations replaced_state)"
    and b: "textAnnotations (handlePDFClick (Num 1) fragment_click 2000 replaced_state) =
        map (\<lambda>ann. if ann_id ann = ext_id (hd demoTexts) then ann\<lparr>isEditing := True\<rparr> else ann)
          (textAnnotations replaced_state)"
    by blast+
  from b have after:
    "map isEditing (textAnnotations (handlePDFClick (Num 1) fragment_click 2000 replaced_state)) = [True]"
    by (simp add: replaced_state_eq demoTexts_def demo_text_def)
  from inst h6
  have c: "length (filter (\<lambda>ann. ann_id ann = ext_id (hd demoTexts)) (textAnnotations replaced_state)) \<le> 1"
    by blast
  from h1 h2 h3 h4 h5 h6 a len before after c show ?thesis by simp
qed

end
